theory Spec2Isabelle
  imports Complex_Main "HOL-Library.Word"
begin

section \<open>Data model (main.cpp, lines 17-32)\<close>

text \<open>
  A finite \<^verbatim>\<open>double\<close> is the real number it denotes. The scaling, \<^verbatim>\<open>subtract\<close>,
  \<^verbatim>\<open>cross\<close> and the change of sign are the exact operations on the reals: their
  rounding and overflow, signed zeros and NaN are outside this model. \<^verbatim>\<open>normalize\<close>
  is modelled in binary64 arithmetic, with the rounding of every operation and the
  overflow of the squares. \<^verbatim>\<open>unsigned int\<close> is a 32-bit word, and the length of a
  \<^verbatim>\<open>std::vector\<close> is a natural number.
\<close>

record Vec3 =
  x :: real
  y :: real
  z :: real

text \<open>The fields \<^verbatim>\<open>min\<close> and \<^verbatim>\<open>max\<close> of \<^verbatim>\<open>Bounds\<close> carry a suffix here.\<close>

record Bounds =
  min_pt :: Vec3
  max_pt :: Vec3

record MeshData =
  positions :: "real list"
  normals :: "real list"
  indices :: "32 word list"

section \<open>Helper functions (main.cpp, lines 34-85)\<close>

text \<open>
  \<^verbatim>\<open>std::stod\<close> is library code: it is a parameter \<open>stod\<close> of the model, which
  returns \<open>None\<close> where the library function throws. The \<^verbatim>\<open>const char*\<close> argument
  is \<open>None\<close> for a null pointer.
\<close>

definition readDouble :: "(string \<Rightarrow> real option) \<Rightarrow> string option \<Rightarrow> real \<Rightarrow> real" where
  "readDouble stod val fallback =
     (case val of
        None \<Rightarrow> fallback
      | Some s \<Rightarrow> (case stod s of None \<Rightarrow> fallback | Some d \<Rightarrow> d))"

definition unitScale :: "string \<Rightarrow> real" where
  "unitScale u = (if u = ''m'' then 1.0 else 0.001)"

text \<open>
  \<^verbatim>\<open>std::min(a, b)\<close> is \<^verbatim>\<open>(b < a) ? b : a\<close> and \<^verbatim>\<open>std::max(a, b)\<close> is
  \<^verbatim>\<open>(a < b) ? b : a\<close>; on a linear order these are \<^const>\<open>min\<close> and \<^const>\<open>max\<close>.
  The six assignments of \<^verbatim>\<open>updateBounds\<close> each read and write one field.
\<close>

definition updateBounds :: "Bounds \<Rightarrow> Vec3 \<Rightarrow> Bounds" where
  "updateBounds bounds point =
     \<lparr>min_pt = \<lparr>x = min (x (min_pt bounds)) (x point),
                y = min (y (min_pt bounds)) (y point),
                z = min (z (min_pt bounds)) (z point)\<rparr>,
      max_pt = \<lparr>x = max (x (max_pt bounds)) (x point),
                y = max (y (max_pt bounds)) (y point),
                z = max (z (max_pt bounds)) (z point)\<rparr>\<rparr>"

definition subtract :: "Vec3 \<Rightarrow> Vec3 \<Rightarrow> Vec3" where
  "subtract a b = \<lparr>x = x a - x b, y = y a - y b, z = z a - z b\<rparr>"

definition cross :: "Vec3 \<Rightarrow> Vec3 \<Rightarrow> Vec3" where
  "cross a b =
     \<lparr>x = y a * z b - z a * y b,
      y = z a * x b - x a * z b,
      z = x a * y b - y a * x b\<rparr>"

subsection \<open>Binary64 arithmetic for \<^verbatim>\<open>normalize\<close>\<close>

text \<open>
  IEEE 754 binary64, round to nearest with ties to even, one operation at a time. A
  number in the binade \<open>[2^e, 2^(e+1))\<close> is rounded to a multiple of \<open>2^(e-52)\<close>;
  below \<open>2^(-1022)\<close> the step stays \<open>2^(-1074)\<close> (subnormal numbers).
\<close>

definition nearest_even :: "real \<Rightarrow> int" where
  "nearest_even q =
     (let f = \<lfloor>q\<rfloor> in
      if q - of_int f < 1 / 2 then f
      else if 1 / 2 < q - of_int f then f + 1
      else if even f then f else f + 1)"

definition binade :: "real \<Rightarrow> int" where
  "binade r = max \<lfloor>log 2 \<bar>r\<bar>\<rfloor> (- 1022)"

definition round_double :: "real \<Rightarrow> real" where
  "round_double r =
     (if r = 0 then 0
      else of_int (nearest_even (r / 2 powi (binade r - 52))) * 2 powi (binade r - 52))"

text \<open>
  The squares, their sums and the square root are never negative: such a result is a
  finite number or plus infinity. A value of \<open>2^1024 - 2^970\<close> or more (the largest
  finite double plus half a step) rounds to infinity.
\<close>

datatype magnitude = Finite real | Infinity

definition overflow_threshold :: real where
  "overflow_threshold = 2 ^ 1024 - 2 ^ 970"

definition rounded :: "real \<Rightarrow> magnitude" where
  "rounded r = (if overflow_threshold \<le> r then Infinity else Finite (round_double r))"

fun add_rounded :: "magnitude \<Rightarrow> magnitude \<Rightarrow> magnitude" where
  "add_rounded (Finite a) (Finite b) = rounded (a + b)"
| "add_rounded a b = Infinity"

fun sqrt_rounded :: "magnitude \<Rightarrow> magnitude" where
  "sqrt_rounded (Finite a) = rounded (sqrt a)"
| "sqrt_rounded Infinity = Infinity"

definition DBL_1e_12 :: real where
  \<comment> \<open>the literal \<^verbatim>\<open>1e-12\<close>: the double nearest to \<open>10^(-12)\<close>, \<^verbatim>\<open>0x3D719799812DEA11\<close>\<close>
  "DBL_1e_12 = 4951760157141521 / 2 ^ 92"

text \<open>
  Line 70: \<^verbatim>\<open>std::sqrt(value.x * value.x + value.y * value.y + value.z * value.z)\<close>,
  the sum from left to right.
\<close>

definition computed_length :: "Vec3 \<Rightarrow> magnitude" where
  "computed_length v =
     sqrt_rounded
       (add_rounded (add_rounded (rounded (x v * x v)) (rounded (y v * y v)))
          (rounded (z v * z v)))"

text \<open>
  \<^verbatim>\<open>normalize\<close> of the source; the name carries a suffix here. An infinite length is
  not \<^verbatim>\<open><= 1e-12\<close>, and a finite number divided by it is zero. A finite length above
  \<^verbatim>\<open>1e-12\<close> divides each component, and the quotient is rounded (it cannot overflow:
  lemma \<open>quotient_below_overflow\<close>).
\<close>

definition normalize_vec :: "Vec3 \<Rightarrow> Vec3" where
  "normalize_vec v =
     (case computed_length v of
        Infinity \<Rightarrow> \<lparr>x = 0, y = 0, z = 0\<rparr>
      | Finite len \<Rightarrow>
          if len \<le> DBL_1e_12 then \<lparr>x = 0, y = 0, z = 0\<rparr>
          else \<lparr>x = round_double (x v / len), y = round_double (y v / len),
                z = round_double (z v / len)\<rparr>)"

text \<open>
  \<^verbatim>\<open>static_cast<unsigned int>(mesh.indices.size())\<close> keeps the low 32 bits of the
  size: \<^term>\<open>of_nat n :: 32 word\<close>.
\<close>

definition appendVertex :: "MeshData \<Rightarrow> Vec3 \<Rightarrow> Vec3 \<Rightarrow> MeshData" where
  "appendVertex mesh point normal =
     \<lparr>positions = positions mesh @ [x point, y point, z point],
      normals = normals mesh @ [x normal, y normal, z normal],
      indices = indices mesh @ [of_nat (length (indices mesh))]\<rparr>"

section \<open>The geometry kernel, as \<^verbatim>\<open>main\<close> observes it\<close>

text \<open>
  The kernel's classes are not part of the program. Each is a record of what the calls
  made by \<^verbatim>\<open>main\<close> return: a point by its coordinates, a triangulation by its node
  accessor (1-based, as the kernel numbers them) and its array of triangles from
  \<^verbatim>\<open>Lower()\<close> to \<^verbatim>\<open>Upper()\<close>, a transformation by its action on points, a null
  handle by \<open>None\<close>.
\<close>

datatype IFSelect_ReturnStatus =
  IFSelect_RetVoid | IFSelect_RetDone | IFSelect_RetError | IFSelect_RetFail | IFSelect_RetStop

datatype TopAbs_Orientation =
  TopAbs_FORWARD | TopAbs_REVERSED | TopAbs_INTERNAL | TopAbs_EXTERNAL

record gp_Pnt =
  X :: real
  Y :: real
  Z :: real

type_synonym gp_Trsf = "gp_Pnt \<Rightarrow> gp_Pnt"

type_synonym Poly_Triangle = "int \<times> int \<times> int"

record Poly_Triangulation =
  Node :: "int \<Rightarrow> gp_Pnt"
  Triangles :: "Poly_Triangle list"

record TopoDS_Face =
  Orientation :: TopAbs_Orientation
  Triangulation :: "Poly_Triangulation option"
  Transformation :: gp_Trsf

text \<open>
  The calls on the reader, the shape and the mesher: the status of \<^verbatim>\<open>ReadFile\<close> for a
  path, whether \<^verbatim>\<open>OneShape()\<close> is null, whether the mesher built with the two
  tolerances \<^verbatim>\<open>IsDone()\<close>, and the faces the explorer then visits, in order.
\<close>

record Kernel =
  ReadFile :: "string \<Rightarrow> IFSelect_ReturnStatus"
  OneShape_IsNull :: "string \<Rightarrow> bool"
  Mesher_IsDone :: "string \<Rightarrow> real \<Rightarrow> real \<Rightarrow> bool"
  Explorer_Faces :: "string \<Rightarrow> real \<Rightarrow> real \<Rightarrow> TopoDS_Face list"

section \<open>Command line (main.cpp, lines 93-114)\<close>

text \<open>The local variables the option loop assigns.\<close>

record Options =
  deflection :: real
  angle :: real
  unit :: string

definition default_options :: Options where
  "default_options = \<lparr>deflection = 0.2, angle = 0.5, unit = ''mm''\<rparr>"

text \<open>
  The loop \<^verbatim>\<open>for (int i = 2; i < argc; i += 1)\<close>; \<open>argc\<close> is the length of \<open>argv\<close>.
  A branch that consumes a value ends with \<^verbatim>\<open>i += 1; continue;\<close>, so the next round
  starts at \<open>i + 2\<close>.
\<close>

function parseArgs :: "(string \<Rightarrow> real option) \<Rightarrow> string list \<Rightarrow> nat \<Rightarrow> Options \<Rightarrow> Options" where
  "parseArgs stod argv i opts =
     (if i < length argv then
        if argv ! i = ''--deflection'' \<and> i + 1 < length argv then
          parseArgs stod argv (i + 2)
            (opts\<lparr>deflection := readDouble stod (Some (argv ! (i + 1))) (deflection opts)\<rparr>)
        else if argv ! i = ''--angle'' \<and> i + 1 < length argv then
          parseArgs stod argv (i + 2)
            (opts\<lparr>angle := readDouble stod (Some (argv ! (i + 1))) (angle opts)\<rparr>)
        else if argv ! i = ''--unit'' \<and> i + 1 < length argv then
          parseArgs stod argv (i + 2) (opts\<lparr>unit := argv ! (i + 1)\<rparr>)
        else parseArgs stod argv (i + 1) opts
      else opts)"
  by pat_completeness auto
termination
  by (relation "measure (\<lambda>(stod, argv, i, opts). length argv - i)") auto

declare parseArgs.simps [simp del]

section \<open>Extraction (main.cpp, lines 135-182)\<close>

definition DBL_MAX :: real where
  \<comment> \<open>\<^verbatim>\<open>std::numeric_limits<double>::max()\<close>, the largest finite binary64 value;
      \<^verbatim>\<open>lowest()\<close> is its negation.\<close>
  "DBL_MAX = (2 - 1 / 2 ^ 52) * 2 ^ 1023"

definition initial_bounds :: Bounds where
  "initial_bounds =
     \<lparr>min_pt = \<lparr>x = DBL_MAX, y = DBL_MAX, z = DBL_MAX\<rparr>,
      max_pt = \<lparr>x = - DBL_MAX, y = - DBL_MAX, z = - DBL_MAX\<rparr>\<rparr>"

definition empty_mesh :: MeshData where
  "empty_mesh = \<lparr>positions = [], normals = [], indices = []\<rparr>"

text \<open>Lines 163-165: \<^verbatim>\<open>Vec3 v{p.X() * scale, p.Y() * scale, p.Z() * scale}\<close>.\<close>

definition scaled :: "real \<Rightarrow> gp_Pnt \<Rightarrow> Vec3" where
  "scaled scale p = \<lparr>x = X p * scale, y = Y p * scale, z = Z p * scale\<rparr>"

text \<open>Lines 167-172: the normal of a triangle, multiplied by \<open>-1.0\<close> on a reversed face.\<close>

definition face_normal :: "bool \<Rightarrow> Vec3 \<Rightarrow> Vec3 \<Rightarrow> Vec3 \<Rightarrow> Vec3" where
  "face_normal reversed v1 v2 v3 =
     (let normal = normalize_vec (cross (subtract v2 v1) (subtract v3 v1)) in
      if reversed then \<lparr>x = x normal * (- 1.0), y = y normal * (- 1.0), z = z normal * (- 1.0)\<rparr>
      else normal)"

text \<open>Lines 174-180: three appends, then three folds into the bounds.\<close>

definition emit_triangle :: "bool \<Rightarrow> Vec3 \<Rightarrow> Vec3 \<Rightarrow> Vec3 \<Rightarrow> MeshData \<times> Bounds \<Rightarrow> MeshData \<times> Bounds" where
  "emit_triangle reversed v1 v2 v3 st =
     (let normal = face_normal reversed v1 v2 v3;
          mesh = appendVertex (appendVertex (appendVertex (fst st) v1 normal) v2 normal) v3 normal;
          bounds = updateBounds (updateBounds (updateBounds (snd st) v1) v2) v3
      in (mesh, bounds))"

text \<open>Lines 154-180: the body of the loop over the triangles of one face.\<close>

definition triangle_step ::
  "real \<Rightarrow> gp_Trsf \<Rightarrow> bool \<Rightarrow> (int \<Rightarrow> gp_Pnt) \<Rightarrow> MeshData \<times> Bounds \<Rightarrow> Poly_Triangle \<Rightarrow> MeshData \<times> Bounds" where
  "triangle_step scale transform reversed node st t =
     (case t of (i1, i2, i3) \<Rightarrow>
        let p1 = transform (node i1);
            p2 = transform (node i2);
            p3 = transform (node i3)
        in emit_triangle reversed (scaled scale p1) (scaled scale p2) (scaled scale p3) st)"

text \<open>Lines 142-181: the body of the loop over the faces.\<close>

definition face_step :: "real \<Rightarrow> MeshData \<times> Bounds \<Rightarrow> TopoDS_Face \<Rightarrow> MeshData \<times> Bounds" where
  "face_step scale st face =
     (case Triangulation face of
        None \<Rightarrow> st
      | Some triangulation \<Rightarrow>
          foldl (triangle_step scale (Transformation face) (Orientation face = TopAbs_REVERSED)
                   (Node triangulation))
            st (Triangles triangulation))"

definition extract_mesh :: "real \<Rightarrow> TopoDS_Face list \<Rightarrow> MeshData \<times> Bounds" where
  "extract_mesh scale faces = foldl (face_step scale) (empty_mesh, initial_bounds) faces"

section \<open>Serialisation and the whole program (main.cpp, lines 87-224)\<close>

text \<open>
  Standard output is the sequence of values inserted into \<^verbatim>\<open>std::cout\<close>: the text of
  a number is the library's, so a number stays a token.
\<close>

datatype Token = Str string | Dbl real | UInt "32 word"

fun write_doubles :: "nat \<Rightarrow> real list \<Rightarrow> Token list" where
  "write_doubles i [] = []"
| "write_doubles i (v # vs) = (if i > 0 then [Str '',''] else []) @ Dbl v # write_doubles (i + 1) vs"

fun write_uints :: "nat \<Rightarrow> 32 word list \<Rightarrow> Token list" where
  "write_uints i [] = []"
| "write_uints i (v # vs) = (if i > 0 then [Str '',''] else []) @ UInt v # write_uints (i + 1) vs"

definition serialize :: "Bounds \<Rightarrow> MeshData \<Rightarrow> Token list" where
  \<open>serialize bounds mesh =
     [Str ''{'', Str ''"bounds":{"min":['',
      Dbl (x (min_pt bounds)), Str '','', Dbl (y (min_pt bounds)), Str '','', Dbl (z (min_pt bounds)),
      Str ''],"max":['',
      Dbl (x (max_pt bounds)), Str '','', Dbl (y (max_pt bounds)), Str '','', Dbl (z (max_pt bounds)),
      Str '']},'', Str ''"meshes":[{'', Str ''"id":"mesh-0",'', Str ''"positions":['']
     @ write_doubles 0 (positions mesh)
     @ [Str ''],'', Str ''"normals":['']
     @ write_doubles 0 (normals mesh)
     @ [Str ''],'', Str ''"indices":['']
     @ write_uints 0 (indices mesh)
     @ [Str '']'', Str ''}],'', Str ''"edges":[]'', Str ''}'']\<close>

record Outcome =
  exit_code :: int
  cerr :: string
  cout :: "Token list"

definition failure :: "string \<Rightarrow> Outcome" where
  \<comment> \<open>a message and a line feed on standard error, \<^verbatim>\<open>return 1\<close>\<close>
  "failure msg = \<lparr>exit_code = 1, cerr = msg @ [CHR 0x0A], cout = []\<rparr>"

definition main :: "(string \<Rightarrow> real option) \<Rightarrow> Kernel \<Rightarrow> string list \<Rightarrow> Outcome" where
  "main stod occt argv =
     (if length argv < 2 then
        failure ''Usage: occt_step_export <file.step> [--deflection 0.2] [--angle 0.5] [--unit mm]''
      else
        let filePath = argv ! 1;
            opts = parseArgs stod argv 2 default_options
        in
          if ReadFile occt filePath \<noteq> IFSelect_RetDone then failure ''Failed to read STEP file.''
          else if OneShape_IsNull occt filePath then failure ''STEP file has no shapes.''
          else if \<not> Mesher_IsDone occt filePath (deflection opts) (angle opts) then
            failure ''Meshing failed.''
          else
            let st = extract_mesh (unitScale (unit opts))
                       (Explorer_Faces occt filePath (deflection opts) (angle opts))
            in
              if positions (fst st) = [] then failure ''No mesh data extracted.''
              else \<lparr>exit_code = 0, cerr = [], cout = serialize (snd st) (fst st)\<rparr>)"

section \<open>Notions the properties are stated with\<close>

text \<open>The two length equations between the three buffers.\<close>

definition mesh_inv :: "MeshData \<Rightarrow> bool" where
  "mesh_inv mesh \<longleftrightarrow>
     length (positions mesh) = length (normals mesh) \<and>
     length (normals mesh) = 3 * length (indices mesh)"

text \<open>A run of \<^const>\<open>appendVertex\<close> calls, each with its point and its normal.\<close>

definition append_calls :: "MeshData \<Rightarrow> (Vec3 \<times> Vec3) list \<Rightarrow> MeshData" where
  "append_calls mesh calls = foldl (\<lambda>m (point, normal). appendVertex m point normal) mesh calls"

text \<open>
  The triangles the two loops visit, in order: the orientation test of the face and the
  three transformed points of the kernel.
\<close>

type_synonym triangle = "bool \<times> gp_Pnt \<times> gp_Pnt \<times> gp_Pnt"

definition face_triangles :: "TopoDS_Face \<Rightarrow> triangle list" where
  "face_triangles face =
     (case Triangulation face of
        None \<Rightarrow> []
      | Some triangulation \<Rightarrow>
          map (\<lambda>(i1, i2, i3).
                (Orientation face = TopAbs_REVERSED,
                 Transformation face (Node triangulation i1),
                 Transformation face (Node triangulation i2),
                 Transformation face (Node triangulation i3)))
            (Triangles triangulation))"

definition kernel_triangles :: "TopoDS_Face list \<Rightarrow> triangle list" where
  "kernel_triangles faces = concat (map face_triangles faces)"

definition emit_scaled :: "real \<Rightarrow> MeshData \<times> Bounds \<Rightarrow> triangle \<Rightarrow> MeshData \<times> Bounds" where
  "emit_scaled scale st t =
     (case t of (reversed, p1, p2, p3) \<Rightarrow>
        emit_triangle reversed (scaled scale p1) (scaled scale p2) (scaled scale p3) st)"

text \<open>The transformed coordinates of the kernel, in the order the loops read them.\<close>

definition triangle_coords :: "triangle \<Rightarrow> real list" where
  "triangle_coords t =
     (case t of (reversed, p1, p2, p3) \<Rightarrow>
        [X p1, Y p1, Z p1, X p2, Y p2, Z p2, X p3, Y p3, Z p3])"

definition kernel_coords :: "TopoDS_Face list \<Rightarrow> real list" where
  "kernel_coords faces = concat (map triangle_coords (kernel_triangles faces))"

text \<open>The vertices passed to \<^const>\<open>appendVertex\<close> and \<^const>\<open>updateBounds\<close>, in order.\<close>

definition triangle_vertices :: "real \<Rightarrow> triangle \<Rightarrow> Vec3 list" where
  "triangle_vertices scale t =
     (case t of (reversed, p1, p2, p3) \<Rightarrow> [scaled scale p1, scaled scale p2, scaled scale p3])"

definition emitted_vertices :: "real \<Rightarrow> TopoDS_Face list \<Rightarrow> Vec3 list" where
  "emitted_vertices scale faces = concat (map (triangle_vertices scale) (kernel_triangles faces))"

definition coords :: "Vec3 \<Rightarrow> real list" where
  "coords v = [x v, y v, z v]"

text \<open>The normals one triangle appends: its face normal, once for each vertex.\<close>

definition triangle_normals :: "real \<Rightarrow> triangle \<Rightarrow> real list" where
  "triangle_normals scale t =
     (case t of (reversed, p1, p2, p3) \<Rightarrow>
        concat (replicate 3
          (coords (face_normal reversed (scaled scale p1) (scaled scale p2) (scaled scale p3)))))"

definition negate :: "Vec3 \<Rightarrow> Vec3" where
  "negate v = \<lparr>x = - x v, y = - y v, z = - z v\<rparr>"



definition within_bounds :: "Bounds \<Rightarrow> Vec3 \<Rightarrow> bool" where
  "within_bounds b v \<longleftrightarrow>
     x (min_pt b) \<le> x v \<and> x v \<le> x (max_pt b) \<and>
     y (min_pt b) \<le> y v \<and> y v \<le> y (max_pt b) \<and>
     z (min_pt b) \<le> z v \<and> z v \<le> z (max_pt b)"

text \<open>
  The option loop on the arguments that remain: what \<^const>\<open>parseArgs\<close> computes from
  index \<open>i\<close> depends on the arguments from \<open>i\<close> on only.
\<close>

fun parse_rest :: "(string \<Rightarrow> real option) \<Rightarrow> string list \<Rightarrow> Options \<Rightarrow> Options" where
  "parse_rest stod [] opts = opts"
| "parse_rest stod [a] opts = opts"
| "parse_rest stod (a # v # rest) opts =
     (if a = ''--deflection'' then
        parse_rest stod rest (opts\<lparr>deflection := readDouble stod (Some v) (deflection opts)\<rparr>)
      else if a = ''--angle'' then
        parse_rest stod rest (opts\<lparr>angle := readDouble stod (Some v) (angle opts)\<rparr>)
      else if a = ''--unit'' then parse_rest stod rest (opts\<lparr>unit := v\<rparr>)
      else parse_rest stod (v # rest) opts)"

definition option_flags :: "string set" where
  "option_flags = {''--deflection'', ''--angle'', ''--unit''}"

text \<open>
  The indices at which the loop of \<^const>\<open>parseArgs\<close> tests \<open>argv[i]\<close> against the
  flags, from index \<open>i\<close> on: behind a flag that has a value the loop goes on at
  \<open>i + 2\<close>, so the value is not examined; behind everything else at \<open>i + 1\<close>.
\<close>

function examined :: "string list \<Rightarrow> nat \<Rightarrow> nat list" where
  "examined argv i =
     (if i < length argv then
        i # (if argv ! i \<in> option_flags \<and> i + 1 < length argv then examined argv (i + 2)
             else examined argv (i + 1))
      else [])"
  by pat_completeness auto
termination
  by (relation "measure (\<lambda>(argv, i). length argv - i)") auto

declare examined.simps [simp del]

text \<open>The same positions, counted from the head of the arguments that remain.\<close>

fun visited :: "string list \<Rightarrow> nat list" where
  "visited [] = []"
| "visited [a] = [0]"
| "visited (a # v # rest) =
     (if a \<in> option_flags then 0 # map (\<lambda>k. k + 2) (visited rest)
      else 0 # map Suc (visited (v # rest)))"

text \<open>The command line without its argument at index \<open>k\<close>.\<close>

definition remove_arg :: "nat \<Rightarrow> string list \<Rightarrow> string list" where
  "remove_arg k argv = take k argv @ drop (Suc k) argv"

subsection \<open>A small kernel to run the program on\<close>

text \<open>
  One face with the triangle (0,0,0), (1,0,0), (0,1,0) and the identity placement; a
  kernel that reads every file and returns the given faces; and a \<open>stod\<close> that
  agrees with \<^verbatim>\<open>std::stod\<close> on the texts used below. The library function reads
  the number a text starts with and leaves the rest unread: \<open>1.5\<close> for \<open>1.5\<close> and
  for \<open>1.5abc\<close>, \<open>1\<close> for \<open>1,5\<close>, \<open>16\<close> for \<open>0x10\<close>. It throws where no
  number starts the text, as in \<open>abc\<close>; every text outside the table stands for such
  a text.
\<close>

definition example_triangulation :: Poly_Triangulation where
  "example_triangulation =
     \<lparr>Node = (\<lambda>i. if i = 1 then \<lparr>X = 0, Y = 0, Z = 0\<rparr>
                  else if i = 2 then \<lparr>X = 1, Y = 0, Z = 0\<rparr>
                  else \<lparr>X = 0, Y = 1, Z = 0\<rparr>),
      Triangles = [(1, 2, 3)]\<rparr>"

definition example_face :: "TopAbs_Orientation \<Rightarrow> TopoDS_Face" where
  "example_face ori =
     \<lparr>Orientation = ori, Triangulation = Some example_triangulation, Transformation = (\<lambda>p. p)\<rparr>"

definition untessellated_face :: TopoDS_Face where
  "untessellated_face =
     \<lparr>Orientation = TopAbs_FORWARD, Triangulation = None, Transformation = (\<lambda>p. p)\<rparr>"

text \<open>A face whose triangulation lists the triangle of the example \<open>n\<close> times.\<close>

definition repeated_face :: "nat \<Rightarrow> TopoDS_Face" where
  "repeated_face n =
     \<lparr>Orientation = TopAbs_FORWARD,
      Triangulation = Some (example_triangulation\<lparr>Triangles := replicate n (1, 2, 3)\<rparr>),
      Transformation = (\<lambda>p. p)\<rparr>"

definition example_kernel :: "TopoDS_Face list \<Rightarrow> Kernel" where
  "example_kernel faces =
     \<lparr>ReadFile = (\<lambda>path. IFSelect_RetDone),
      OneShape_IsNull = (\<lambda>path. False),
      Mesher_IsDone = (\<lambda>path d a. True),
      Explorer_Faces = (\<lambda>path d a. faces)\<rparr>"

definition example_stod :: "string \<Rightarrow> real option" where
  "example_stod s =
     (if s = ''1.5'' \<or> s = ''1.5abc'' then Some 1.5
      else if s = ''1,5'' then Some 1
      else if s = ''0x10'' then Some 16
      else None)"

section \<open>The mesh buffers\<close>

lemma positions_appendVertex [simp]:
  "positions (appendVertex mesh p n) = positions mesh @ [x p, y p, z p]"
  by (simp add: appendVertex_def)

lemma normals_appendVertex [simp]:
  "normals (appendVertex mesh p n) = normals mesh @ [x n, y n, z n]"
  by (simp add: appendVertex_def)

lemma indices_appendVertex [simp]:
  "indices (appendVertex mesh p n) = indices mesh @ [of_nat (length (indices mesh))]"
  by (simp add: appendVertex_def)

lemma mesh_inv_empty: "mesh_inv empty_mesh"
  by (simp add: mesh_inv_def empty_mesh_def)

lemma mesh_inv_appendVertex: "mesh_inv mesh \<Longrightarrow> mesh_inv (appendVertex mesh p n)"
  by (simp add: mesh_inv_def)

lemma append_calls_Nil [simp]: "append_calls mesh [] = mesh"
  by (simp add: append_calls_def)

lemma append_calls_snoc [simp]:
  "append_calls mesh (calls @ [(p, n)]) = appendVertex (append_calls mesh calls) p n"
  by (simp add: append_calls_def)

lemma append_calls_append:
  "append_calls mesh (cs @ ds) = append_calls (append_calls mesh cs) ds"
  by (simp add: append_calls_def)

lemma mesh_inv_append_calls: "mesh_inv mesh \<Longrightarrow> mesh_inv (append_calls mesh calls)"
  by (induction calls rule: rev_induct) (auto simp: mesh_inv_appendVertex)

lemma indices_append_calls:
  "indices (append_calls mesh calls) =
     indices mesh @ map of_nat [length (indices mesh)..<length (indices mesh) + length calls]"
proof (induction calls rule: rev_induct)
  case Nil
  show ?case by simp
next
  case (snoc c calls)
  obtain p n where c: "c = (p, n)" by (cases c)
  show ?case by (simp add: c snoc.IH)
qed

lemma indices_run:
  "indices (append_calls empty_mesh calls) = map of_nat [0..<length calls]"
  by (simp add: indices_append_calls empty_mesh_def)

lemma nth_indices_run:
  "i < length calls \<Longrightarrow> indices (append_calls empty_mesh calls) ! i = of_nat i"
  by (simp add: indices_run)

subsection \<open>One triangle\<close>

lemma positions_emit_triangle:
  "positions (fst (emit_triangle r v1 v2 v3 st)) =
     positions (fst st) @ coords v1 @ coords v2 @ coords v3"
  by (simp add: emit_triangle_def Let_def coords_def)

lemma normals_emit_triangle:
  "normals (fst (emit_triangle r v1 v2 v3 st)) =
     normals (fst st) @ concat (replicate 3 (coords (face_normal r v1 v2 v3)))"
  by (simp add: emit_triangle_def Let_def coords_def numeral_3_eq_3)

lemma indices_emit_triangle:
  "indices (fst (emit_triangle r v1 v2 v3 st)) =
     indices (fst st) @
       [of_nat (length (indices (fst st))), of_nat (length (indices (fst st)) + 1),
        of_nat (length (indices (fst st)) + 2)]"
  by (simp add: emit_triangle_def Let_def)

lemma bounds_emit_triangle:
  "snd (emit_triangle r v1 v2 v3 st) =
     updateBounds (updateBounds (updateBounds (snd st) v1) v2) v3"
  by (simp add: emit_triangle_def Let_def)

lemma emit_triangle_calls:
  "fst (emit_triangle r v1 v2 v3 st) =
     append_calls (fst st)
       [(v1, face_normal r v1 v2 v3), (v2, face_normal r v1 v2 v3), (v3, face_normal r v1 v2 v3)]"
  by (simp add: emit_triangle_def append_calls_def Let_def)

subsection \<open>The two loops as one fold over the triangles\<close>

lemma emit_scaled_tuple:
  "emit_scaled s st (r, p1, p2, p3) =
     emit_triangle r (scaled s p1) (scaled s p2) (scaled s p3) st"
  by (simp add: emit_scaled_def)

lemma face_step_flat: "face_step s st f = foldl (emit_scaled s) st (face_triangles f)"
proof (cases "Triangulation f")
  case None
  then show ?thesis by (simp add: face_step_def face_triangles_def)
next
  case (Some t)
  have "foldl (triangle_step s tr r nd) st ts
      = foldl (emit_scaled s) st (map (\<lambda>(i1, i2, i3). (r, tr (nd i1), tr (nd i2), tr (nd i3))) ts)"
    for tr r nd ts
    by (induction ts arbitrary: st)
       (auto simp: triangle_step_def emit_scaled_tuple Let_def split: prod.splits)
  with Some show ?thesis by (simp add: face_step_def face_triangles_def)
qed

lemma foldl_face_step_flat:
  "foldl (face_step s) st fs = foldl (emit_scaled s) st (kernel_triangles fs)"
  by (induction fs arbitrary: st) (simp_all add: kernel_triangles_def face_step_flat)

lemma extract_mesh_flat:
  "extract_mesh s fs = foldl (emit_scaled s) (empty_mesh, initial_bounds) (kernel_triangles fs)"
  by (simp add: extract_mesh_def foldl_face_step_flat)

lemma foldl_emit_scaled_calls:
  "\<exists>cs. fst (foldl (emit_scaled s) st ts) = append_calls (fst st) cs"
proof (induction ts arbitrary: st)
  case Nil
  have "fst st = append_calls (fst st) []" by simp
  then show ?case by (simp del: append_calls_Nil) blast
next
  case (Cons t ts)
  obtain r p1 p2 p3 where t: "t = (r, p1, p2, p3)" by (cases t) auto
  obtain cs where a: "fst (emit_scaled s st t) = append_calls (fst st) cs"
    unfolding t emit_scaled_tuple emit_triangle_calls by blast
  obtain ds where b: "fst (foldl (emit_scaled s) (emit_scaled s st t) ts)
      = append_calls (fst (emit_scaled s st t)) ds"
    using Cons.IH by blast
  have "fst (foldl (emit_scaled s) st (t # ts)) = append_calls (fst st) (cs @ ds)"
    by (simp add: a b append_calls_append)
  then show ?case by blast
qed

lemma extract_mesh_calls: "\<exists>cs. fst (extract_mesh s fs) = append_calls empty_mesh cs"
  using foldl_emit_scaled_calls [of s "(empty_mesh, initial_bounds)" "kernel_triangles fs"]
  by (simp add: extract_mesh_flat)

lemma positions_foldl_emit_scaled:
  "positions (fst (foldl (emit_scaled s) st ts)) =
     positions (fst st) @ concat (map coords (concat (map (triangle_vertices s) ts)))"
proof (induction ts arbitrary: st)
  case Nil
  show ?case by simp
next
  case (Cons t ts)
  obtain r p1 p2 p3 where t: "t = (r, p1, p2, p3)" by (cases t) auto
  show ?case
    by (simp add: Cons.IH t emit_scaled_tuple positions_emit_triangle triangle_vertices_def)
qed

lemma normals_foldl_emit_scaled:
  "normals (fst (foldl (emit_scaled s) st ts)) =
     normals (fst st) @ concat (map (triangle_normals s) ts)"
proof (induction ts arbitrary: st)
  case Nil
  show ?case by simp
next
  case (Cons t ts)
  obtain r p1 p2 p3 where t: "t = (r, p1, p2, p3)" by (cases t) auto
  show ?case
    by (simp add: Cons.IH t emit_scaled_tuple normals_emit_triangle triangle_normals_def)
qed

lemma length_indices_foldl_emit_scaled:
  "length (indices (fst (foldl (emit_scaled s) st ts))) =
     length (indices (fst st)) + length (concat (map (triangle_vertices s) ts))"
proof (induction ts arbitrary: st)
  case Nil
  show ?case by simp
next
  case (Cons t ts)
  obtain r p1 p2 p3 where t: "t = (r, p1, p2, p3)" by (cases t) auto
  show ?case
    by (simp add: Cons.IH t emit_scaled_tuple indices_emit_triangle triangle_vertices_def)
qed

lemma bounds_foldl_emit_scaled:
  "snd (foldl (emit_scaled s) st ts) =
     foldl updateBounds (snd st) (concat (map (triangle_vertices s) ts))"
proof (induction ts arbitrary: st)
  case Nil
  show ?case by simp
next
  case (Cons t ts)
  obtain r p1 p2 p3 where t: "t = (r, p1, p2, p3)" by (cases t) auto
  show ?case
    by (simp add: Cons.IH t emit_scaled_tuple bounds_emit_triangle triangle_vertices_def)
qed

lemma positions_vertices:
  "positions (fst (extract_mesh s fs)) = concat (map coords (emitted_vertices s fs))"
  by (simp add: extract_mesh_flat positions_foldl_emit_scaled emitted_vertices_def empty_mesh_def)

lemma length_indices_extract_mesh:
  "length (indices (fst (extract_mesh s fs))) = length (emitted_vertices s fs)"
  by (simp add: extract_mesh_flat length_indices_foldl_emit_scaled emitted_vertices_def
        empty_mesh_def)

lemma bounds_extract_mesh:
  "snd (extract_mesh s fs) = foldl updateBounds initial_bounds (emitted_vertices s fs)"
  by (simp add: extract_mesh_flat bounds_foldl_emit_scaled emitted_vertices_def)

lemma coords_scaled_triangle:
  "concat (map coords (triangle_vertices s t)) = map (\<lambda>c. c * s) (triangle_coords t)"
  by (cases t) (simp add: triangle_vertices_def triangle_coords_def coords_def scaled_def)

lemma positions_extract_mesh:
  "positions (fst (extract_mesh s fs)) = map (\<lambda>c. c * s) (kernel_coords fs)"
proof -
  have "concat (map coords (concat (map (triangle_vertices s) ts))) =
      map (\<lambda>c. c * s) (concat (map triangle_coords ts))" for ts
    by (induction ts) (simp_all add: coords_scaled_triangle)
  then show ?thesis
    by (simp add: positions_vertices emitted_vertices_def kernel_coords_def)
qed

lemma emitted_vertices_Nil: "emitted_vertices s fs = [] \<longleftrightarrow> kernel_triangles fs = []"
proof -
  have "concat (map (triangle_vertices s) ts) = [] \<longleftrightarrow> ts = []" for ts
    by (cases ts) (auto simp: triangle_vertices_def split: prod.splits)
  then show ?thesis by (simp add: emitted_vertices_def)
qed

lemma positions_Nil: "positions (fst (extract_mesh s fs)) = [] \<longleftrightarrow> kernel_triangles fs = []"
proof -
  have "concat (map coords vs) = [] \<longleftrightarrow> vs = []" for vs
    by (cases vs) (auto simp: coords_def)
  then show ?thesis by (simp add: positions_vertices emitted_vertices_Nil)
qed

text \<open>
  C2: after any run of \<^const>\<open>appendVertex\<close> calls on the empty mesh, and at the end of the
  two loops (itself such a run), the positions and the normals have the same length,
  three times the length of the indices.
\<close>

theorem buffer_lengths_invariant:
  "mesh_inv (append_calls empty_mesh calls) \<and>
   mesh_inv (fst (extract_mesh scale faces)) \<and>
   (\<exists>cs. fst (extract_mesh scale faces) = append_calls empty_mesh cs)"
proof -
  have run: "mesh_inv (append_calls empty_mesh cs)" for cs
    by (rule mesh_inv_append_calls [OF mesh_inv_empty])
  obtain cs where cs: "fst (extract_mesh scale faces) = append_calls empty_mesh cs"
    using extract_mesh_calls by blast
  have "mesh_inv (fst (extract_mesh scale faces))"
    unfolding cs by (rule run)
  with run cs show ?thesis by blast
qed

subsection \<open>The indices\<close>

lemma indices_extract_mesh:
  "indices (fst (extract_mesh s fs)) = map of_nat [0..<length (emitted_vertices s fs)]"
proof -
  obtain cs where cs: "fst (extract_mesh s fs) = append_calls empty_mesh cs"
    using extract_mesh_calls by blast
  have "length cs = length (emitted_vertices s fs)"
    using length_indices_extract_mesh [of s fs] by (simp add: cs indices_run)
  then show ?thesis by (simp add: cs indices_run)
qed

lemma length_emitted_vertices:
  "length (emitted_vertices s fs) = 3 * length (kernel_triangles fs)"
proof -
  have "length (concat (map (triangle_vertices s) ts)) = 3 * length ts" for ts
    by (induction ts) (auto simp: triangle_vertices_def split: prod.splits)
  then show ?thesis by (simp add: emitted_vertices_def)
qed

lemma repeated_face_triangles: "length (kernel_triangles [repeated_face n]) = n"
  by (simp add: kernel_triangles_def face_triangles_def repeated_face_def)

lemma unat_index: "unat (of_nat i :: 32 word) = i mod 2 ^ 32"
  by (simp add: unat_of_nat)

lemma index_wraps:
  assumes "n = 2 ^ 32"
  shows "n < length (indices (append_calls empty_mesh (replicate (n + 1) c))) \<and>
         unat (indices (append_calls empty_mesh (replicate (n + 1) c)) ! n) \<noteq> n"
proof -
  have len: "length (indices (append_calls empty_mesh (replicate (n + 1) c))) = n + 1"
    by (simp add: indices_run)
  have "indices (append_calls empty_mesh (replicate (n + 1) c)) ! n = (of_nat n :: 32 word)"
    by (rule nth_indices_run) simp
  also have "\<dots> = 0" using assms by simp
  finally have "unat (indices (append_calls empty_mesh (replicate (n + 1) c)) ! n) = 0" by simp
  moreover have "n \<noteq> 0" using assms by simp
  ultimately show ?thesis using len by simp
qed

lemma pipeline_index_wraps:
  assumes "2 ^ 32 < 3 * n"
  shows "2 ^ 32 < length (indices (fst (extract_mesh s [repeated_face n]))) \<and>
         unat (indices (fst (extract_mesh s [repeated_face n])) ! (2 ^ 32)) \<noteq> 2 ^ 32"
proof -
  define k :: nat where "k = 2 ^ 32"
  have len: "length (emitted_vertices s [repeated_face n]) = 3 * n"
    by (simp add: length_emitted_vertices repeated_face_triangles)
  have k: "k < 3 * n" using assms by (simp add: k_def)
  have "indices (fst (extract_mesh s [repeated_face n])) ! k = (of_nat k :: 32 word)"
    using k by (simp add: indices_extract_mesh len)
  also have "\<dots> = 0" by (simp add: k_def)
  finally have "unat (indices (fst (extract_mesh s [repeated_face n])) ! k) = 0" by simp
  moreover have "k \<noteq> 0" by (simp add: k_def)
  moreover have "k < length (indices (fst (extract_mesh s [repeated_face n])))"
    using k by (simp add: indices_extract_mesh len)
  ultimately show ?thesis unfolding k_def by simp
qed

text \<open>
  C3, as stated, fails once the mesh holds more than \<open>2 ^ 32\<close> vertices: the index is
  cast to \<^verbatim>\<open>unsigned int\<close>. On one face of 1431655766 triangles (\<open>2 ^ 32 + 2\<close>
  vertices) the loops leave \<open>0\<close>, not \<open>2 ^ 32\<close>, at position \<open>2 ^ 32\<close> of the
  indices; so do \<open>2 ^ 32 + 1\<close> calls of \<^const>\<open>appendVertex\<close> on the empty mesh.
\<close>

theorem index_wraps_at_2_32:
  "2 ^ 32 < length (indices (fst (extract_mesh 1 [repeated_face 1431655766]))) \<and>
   unat (indices (fst (extract_mesh 1 [repeated_face 1431655766])) ! (2 ^ 32)) \<noteq> 2 ^ 32 \<and>
   2 ^ 32 < length (indices (append_calls empty_mesh
       (replicate (2 ^ 32 + 1) (\<lparr>x = 0, y = 0, z = 0\<rparr>, \<lparr>x = 0, y = 0, z = 0\<rparr>)))) \<and>
   unat (indices (append_calls empty_mesh
       (replicate (2 ^ 32 + 1) (\<lparr>x = 0, y = 0, z = 0\<rparr>, \<lparr>x = 0, y = 0, z = 0\<rparr>))) ! (2 ^ 32)) \<noteq> 2 ^ 32"
proof -
  have "(2::nat) ^ 32 < 3 * 1431655766" by simp
  from pipeline_index_wraps [OF this, of 1] index_wraps [OF refl]
  show ?thesis by blast
qed

text \<open>
  C3, amended: every \<^const>\<open>appendVertex\<close> call appends the current length of the indices,
  cast to 32 bits, and nothing else. After any run of calls on the empty mesh, and at
  the end of the two loops, there is one index for each call (for each emitted vertex),
  the entry at \<open>i\<close> is \<open>i mod 2 ^ 32\<close>, and it is \<open>i\<close> itself for every \<open>i < 2 ^ 32\<close>.
\<close>

theorem indices_sequential:
  "indices (appendVertex mesh p n) = indices mesh @ [of_nat (length (indices mesh))] \<and>
   length (indices (append_calls empty_mesh calls)) = length calls \<and>
   (i < length calls \<longrightarrow>
      unat (indices (append_calls empty_mesh calls) ! i) = i mod 2 ^ 32 \<and>
      (i < 2 ^ 32 \<longrightarrow> unat (indices (append_calls empty_mesh calls) ! i) = i)) \<and>
   length (indices (fst (extract_mesh scale faces))) = length (emitted_vertices scale faces) \<and>
   (j < length (indices (fst (extract_mesh scale faces))) \<longrightarrow>
      unat (indices (fst (extract_mesh scale faces)) ! j) = j mod 2 ^ 32 \<and>
      (j < 2 ^ 32 \<longrightarrow> unat (indices (fst (extract_mesh scale faces)) ! j) = j))"
  by (auto simp: indices_run indices_extract_mesh unat_index)

theorem indices_sequential_witness:
  "(1::nat) < length [(\<lparr>x = 1, y = 2, z = 3\<rparr>, \<lparr>x = 0, y = 0, z = 1\<rparr>),
       (\<lparr>x = 4, y = 5, z = 6\<rparr>, \<lparr>x = 0, y = 0, z = 1\<rparr>)] \<and>
   unat (indices (append_calls empty_mesh
      [(\<lparr>x = 1, y = 2, z = 3\<rparr>, \<lparr>x = 0, y = 0, z = 1\<rparr>),
       (\<lparr>x = 4, y = 5, z = 6\<rparr>, \<lparr>x = 0, y = 0, z = 1\<rparr>)]) ! 1) = 1 \<and>
   (2::nat) < length (indices (fst (extract_mesh 1 [example_face TopAbs_FORWARD]))) \<and>
   unat (indices (fst (extract_mesh 1 [example_face TopAbs_FORWARD])) ! 2) = 2"
proof -
  have len: "(2::nat) < length (indices (fst (extract_mesh 1 [example_face TopAbs_FORWARD])))"
    by (simp add: length_indices_extract_mesh emitted_vertices_def kernel_triangles_def
          face_triangles_def example_face_def example_triangulation_def triangle_vertices_def)
  show ?thesis
    using len
      indices_sequential [of _ _ _
        "[(\<lparr>x = 1, y = 2, z = 3\<rparr>, \<lparr>x = 0, y = 0, z = 1\<rparr>),
          (\<lparr>x = 4, y = 5, z = 6\<rparr>, \<lparr>x = 0, y = 0, z = 1\<rparr>)]" 1
        1 "[example_face TopAbs_FORWARD]" 2]
    by simp
qed

section \<open>Normals and orientation\<close>

lemma face_normal_reversed: "face_normal True v1 v2 v3 = negate (face_normal False v1 v2 v3)"
  by (simp add: face_normal_def negate_def Let_def)

lemma coords_negate: "coords (negate v) = map uminus (coords v)"
  by (simp add: coords_def negate_def)

lemma face_triangles_orientation:
  "face_triangles (f\<lparr>Orientation := ori\<rparr>) =
     map (\<lambda>(r, t). (ori = TopAbs_REVERSED, t)) (face_triangles f)"
  by (cases "Triangulation f") (auto simp: face_triangles_def)

lemma triangle_normals_reversed:
  "triangle_normals s (True, t) = map uminus (triangle_normals s (False, t))"
  by (cases t) (simp add: triangle_normals_def face_normal_reversed coords_negate map_concat)

lemma triangle_vertices_retag: "triangle_vertices s (b, t) = triangle_vertices s (c, t)"
  by (cases t) (simp add: triangle_vertices_def)

lemma normals_reversed_face:
  "concat (map (triangle_normals s) (face_triangles (f\<lparr>Orientation := TopAbs_REVERSED\<rparr>))) =
     map uminus (concat (map (triangle_normals s) (face_triangles (f\<lparr>Orientation := TopAbs_FORWARD\<rparr>))))"
proof -
  have "concat (map (triangle_normals s) (map (\<lambda>(r, t). (True, t)) ts)) =
      map uminus (concat (map (triangle_normals s) (map (\<lambda>(r, t). (False, t)) ts)))"
    for ts :: "triangle list"
    by (induction ts) (auto simp: triangle_normals_reversed)
  then show ?thesis
    by (simp add: face_triangles_orientation)
qed

lemma vertices_face_orientation:
  "concat (map (triangle_vertices s) (face_triangles (f\<lparr>Orientation := ori\<rparr>))) =
     concat (map (triangle_vertices s) (face_triangles f))"
proof -
  have "concat (map (triangle_vertices s) (map (\<lambda>(r, t). (b, t)) ts)) =
        concat (map (triangle_vertices s) ts)"
    for b and ts :: "triangle list"
    by (induction ts) (auto simp: triangle_vertices_retag [of s b])
  then show ?thesis
    by (simp add: face_triangles_orientation del: map_map)
qed

text \<open>
  C1: for the same three vertices in the same order, the normal computed on a reversed
  face is the componentwise negation of the normal computed on a forward face; the
  positions and the indices appended for the triangle are the same on both (the
  coordinates of \<open>v1\<close>, \<open>v2\<close>, \<open>v3\<close> in this order), and its normals are the
  negated ones. The same holds for a whole face: turning its
  orientation from forward to reversed negates the normals it appends and leaves the
  positions as they are.
\<close>

theorem reversed_normal_is_negation:
  "face_normal True v1 v2 v3 = negate (face_normal False v1 v2 v3) \<and>
   normals (fst (emit_triangle True v1 v2 v3 st)) =
     normals (fst st) @ map uminus (drop (length (normals (fst st)))
       (normals (fst (emit_triangle False v1 v2 v3 st)))) \<and>
   positions (fst (emit_triangle True v1 v2 v3 st)) =
     positions (fst (emit_triangle False v1 v2 v3 st)) \<and>
   positions (fst (emit_triangle True v1 v2 v3 st)) =
     positions (fst st) @ coords v1 @ coords v2 @ coords v3 \<and>
   indices (fst (emit_triangle True v1 v2 v3 st)) =
     indices (fst (emit_triangle False v1 v2 v3 st)) \<and>
   normals (fst (face_step s st (f\<lparr>Orientation := TopAbs_REVERSED\<rparr>))) =
     normals (fst st) @ map uminus (drop (length (normals (fst st)))
       (normals (fst (face_step s st (f\<lparr>Orientation := TopAbs_FORWARD\<rparr>))))) \<and>
   positions (fst (face_step s st (f\<lparr>Orientation := TopAbs_REVERSED\<rparr>))) =
     positions (fst (face_step s st (f\<lparr>Orientation := TopAbs_FORWARD\<rparr>)))"
proof -
  have 1: "normals (fst (emit_triangle True v1 v2 v3 st)) =
     normals (fst st) @ map uminus (drop (length (normals (fst st)))
       (normals (fst (emit_triangle False v1 v2 v3 st))))"
    by (simp add: normals_emit_triangle face_normal_reversed coords_negate map_concat)
  have 2: "positions (fst (emit_triangle True v1 v2 v3 st)) =
     positions (fst (emit_triangle False v1 v2 v3 st))"
    by (simp add: positions_emit_triangle)
  have 3: "indices (fst (emit_triangle True v1 v2 v3 st)) =
     indices (fst (emit_triangle False v1 v2 v3 st))"
    by (simp add: indices_emit_triangle)
  have 4: "normals (fst (face_step s st (f\<lparr>Orientation := TopAbs_REVERSED\<rparr>))) =
     normals (fst st) @ map uminus (drop (length (normals (fst st)))
       (normals (fst (face_step s st (f\<lparr>Orientation := TopAbs_FORWARD\<rparr>)))))"
    by (simp add: face_step_flat normals_foldl_emit_scaled normals_reversed_face)
  have 5: "positions (fst (face_step s st (f\<lparr>Orientation := TopAbs_REVERSED\<rparr>))) =
     positions (fst (face_step s st (f\<lparr>Orientation := TopAbs_FORWARD\<rparr>)))"
    by (simp add: face_step_flat positions_foldl_emit_scaled vertices_face_orientation)
  from face_normal_reversed 1 2 3 4 5 positions_emit_triangle [of True v1 v2 v3 st]
  show ?thesis by blast
qed

subsection \<open>Rounding\<close>

lemma nearest_even_of_int [simp]: "nearest_even (of_int n) = n"
  by (simp add: nearest_even_def)

lemma binade_eq:
  assumes "2 powi k \<le> \<bar>r\<bar>" "\<bar>r\<bar> < 2 powi (k + 1)" "- 1022 \<le> k"
  shows "binade r = k"
proof -
  have pos: "0 < \<bar>r\<bar>" using assms(1) by (smt (verit) zero_less_power_int)
  have p1: "(2::real) powr (of_int k) = 2 powi k"
    by (simp add: powr_real_of_int')
  have p2: "(2::real) powr (of_int k + 1) = 2 powi (k + 1)"
    using powr_real_of_int' [of 2 "k + 1"] by simp
  have "\<lfloor>log 2 \<bar>r\<bar>\<rfloor> = k"
    using assms pos by (simp add: floor_log_eq_powr_iff p1 p2)
  then show ?thesis using assms(3) by (simp add: binade_def)
qed

lemma round_double_0 [simp]: "round_double 0 = 0"
  by (simp add: round_double_def)

lemma round_double_pow2:
  assumes "- 1022 \<le> k"
  shows "round_double (2 powi k) = 2 powi k"
proof -
  have b: "binade (2 powi k) = k"
    by (rule binade_eq) (use assms in \<open>simp_all add: power_int_add\<close>)
  have "(2::real) powi k / 2 powi (k - 52) = of_int (2 ^ 52)"
    by (simp add: power_int_diff)
  then have "nearest_even ((2::real) powi k / 2 powi (k - 52)) = 2 ^ 52"
    by (simp only: nearest_even_of_int)
  then show ?thesis
    by (simp add: round_double_def b power_int_diff)
qed

lemma round_double_1 [simp]: "round_double 1 = 1"
  using round_double_pow2 [of 0] by simp

lemma round_double_2 [simp]: "round_double 2 = 2"
  using round_double_pow2 [of 1] by simp

lemma round_double_4 [simp]: "round_double 4 = 4"
  using round_double_pow2 [of 2] by simp

text \<open>The rounding gives the literals their known binary64 values.\<close>

lemma DBL_1e_12_rounds: "round_double (1 / 10 ^ 12) = DBL_1e_12"
proof -
  have b: "binade (1 / 10 ^ 12) = - 40"
    by (rule binade_eq) (simp_all add: power_int_minus field_simps)
  have q: "(1 / 10 ^ 12 :: real) / 2 powi (- 40 - 52) = 2 ^ 92 / 10 ^ 12"
    by (simp add: power_int_minus field_simps)
  have f: "\<lfloor>(2 ^ 92 / 10 ^ 12 :: real)\<rfloor> = 4951760157141521"
    by (simp add: floor_eq_iff)
  have "nearest_even (2 ^ 92 / 10 ^ 12) = 4951760157141521"
    unfolding nearest_even_def Let_def f by simp
  then have ne: "nearest_even ((1 / 10 ^ 12) / 2 powi (- 40 - 52)) = 4951760157141521"
    by (simp only: q)
  have nz: "(1 / 10 ^ 12 :: real) \<noteq> 0" by simp
  have "round_double (1 / 10 ^ 12) =
      of_int (nearest_even ((1 / 10 ^ 12) / 2 powi (- 40 - 52))) * 2 powi (- 40 - 52)"
    unfolding round_double_def b using nz by (simp only: if_False)
  also have "\<dots> = of_int 4951760157141521 * 2 powi (- 40 - 52)"
    by (simp only: ne)
  also have "\<dots> = DBL_1e_12"
    by (simp add: DBL_1e_12_def power_int_minus field_simps)
  finally show ?thesis .
qed

lemma round_double_tenth: "round_double (1 / 10) = 3602879701896397 / 2 ^ 55"
proof -
  have b: "binade (1 / 10) = - 4"
    by (rule binade_eq) (simp_all add: power_int_minus field_simps)
  have q: "(1 / 10 :: real) / 2 powi (- 4 - 52) = 2 ^ 56 / 10"
    by (simp add: power_int_minus field_simps)
  have f: "\<lfloor>(2 ^ 56 / 10 :: real)\<rfloor> = 7205759403792793"
    by (simp add: floor_eq_iff)
  have "nearest_even (2 ^ 56 / 10) = 7205759403792794"
    unfolding nearest_even_def Let_def f by simp
  then have ne: "nearest_even ((1 / 10) / 2 powi (- 4 - 52)) = 7205759403792794"
    by (simp only: q)
  have nz: "(1 / 10 :: real) \<noteq> 0" by simp
  have "round_double (1 / 10) =
      of_int (nearest_even ((1 / 10) / 2 powi (- 4 - 52))) * 2 powi (- 4 - 52)"
    unfolding round_double_def b using nz by (simp only: if_False)
  also have "\<dots> = of_int 7205759403792794 * 2 powi (- 4 - 52)"
    by (simp only: ne)
  also have "\<dots> = 3602879701896397 / 2 ^ 55"
    by (simp add: power_int_minus field_simps)
  finally show ?thesis .
qed

text \<open>Halfway between two doubles the one with the even significand is taken.\<close>

lemma round_double_ties:
  "round_double (2 ^ 53 + 1) = 2 ^ 53" "round_double (2 ^ 53 + 3) = 2 ^ 53 + 4"
proof -
  have b: "binade (2 ^ 53 + 1) = 53" "binade (2 ^ 53 + 3) = 53"
    by (rule binade_eq; simp)+
  have n1: "nearest_even ((2 ^ 53 + 1) / 2 powi (53 - 52)) = 2 ^ 52"
    by (simp add: nearest_even_def Let_def floor_eq_iff add_divide_distrib)
  have f: "\<lfloor>((2 ^ 53 + 3) / 2 :: real)\<rfloor> = 2 ^ 52 + 1"
    by (simp add: floor_eq_iff)
  have n2: "nearest_even ((2 ^ 53 + 3) / 2 powi (53 - 52)) = 2 ^ 52 + 2"
    unfolding nearest_even_def Let_def by (simp add: f)
  show "round_double (2 ^ 53 + 1) = 2 ^ 53"
    unfolding round_double_def b n1 by simp
  show "round_double (2 ^ 53 + 3) = 2 ^ 53 + 4"
    unfolding round_double_def b n2 by simp
qed


subsection \<open>Normalisation\<close>

lemma rounded_0 [simp]: "rounded 0 = Finite 0"
  by (simp add: rounded_def overflow_threshold_def)

lemma rounded_1 [simp]: "rounded 1 = Finite 1"
  by (simp add: rounded_def overflow_threshold_def)

lemma rounded_2 [simp]: "rounded 2 = Finite 2"
  by (simp add: rounded_def overflow_threshold_def)

lemma rounded_4 [simp]: "rounded 4 = Finite 4"
  by (simp add: rounded_def overflow_threshold_def)


lemma rounded_overflow: "overflow_threshold \<le> r \<Longrightarrow> rounded r = Infinity"
  by (simp add: rounded_def)















section \<open>Unit scale\<close>

lemma unitScale_cases: "unitScale u = (if u = ''m'' then 1 else 1 / 1000)"
  by (simp add: unitScale_def)

lemma triangle_step_emit:
  "triangle_step s tr r nd st (i1, i2, i3) =
     emit_triangle r (scaled s (tr (nd i1))) (scaled s (tr (nd i2))) (scaled s (tr (nd i3))) st"
  by (simp add: triangle_step_def Let_def)

lemma main_output:
  "cout (main stod occt argv) = [] \<or>
   cout (main stod occt argv) =
     serialize
       (snd (extract_mesh (unitScale (unit (parseArgs stod argv 2 default_options)))
          (Explorer_Faces occt (argv ! 1)
             (deflection (parseArgs stod argv 2 default_options))
             (angle (parseArgs stod argv 2 default_options)))))
       (fst (extract_mesh (unitScale (unit (parseArgs stod argv 2 default_options)))
          (Explorer_Faces occt (argv ! 1)
             (deflection (parseArgs stod argv 2 default_options))
             (angle (parseArgs stod argv 2 default_options)))))"
  by (simp add: main_def failure_def Let_def)

text \<open>
  C4: the scale is \<open>1\<close> for the unit \<open>m\<close> and \<open>0.001\<close> for every other text, and
  \<^const>\<open>unitScale\<close> is total: it has no failing branch. Each triangle appends the nine
  transformed coordinates of the kernel, each multiplied by the scale; the positions at
  the end of the loops are the kernel's coordinates multiplied by it; and what the
  program writes, when it writes, is the serialisation of that mesh for the scale of the
  unit option.
\<close>

theorem unit_scaling:
  "unitScale u = (if u = ''m'' then 1 else 1 / 1000) \<and>
   positions (fst (triangle_step scale tr r nd st (i1, i2, i3))) =
     positions (fst st) @
       map (\<lambda>c. c * scale)
         [X (tr (nd i1)), Y (tr (nd i1)), Z (tr (nd i1)),
          X (tr (nd i2)), Y (tr (nd i2)), Z (tr (nd i2)),
          X (tr (nd i3)), Y (tr (nd i3)), Z (tr (nd i3))] \<and>
   positions (fst (extract_mesh (unitScale u) faces)) =
     map (\<lambda>c. c * (if u = ''m'' then 1 else 1 / 1000)) (kernel_coords faces) \<and>
   (cout (main stod occt argv) = [] \<or>
    cout (main stod occt argv) =
     serialize
       (snd (extract_mesh (unitScale (unit (parseArgs stod argv 2 default_options)))
          (Explorer_Faces occt (argv ! 1)
             (deflection (parseArgs stod argv 2 default_options))
             (angle (parseArgs stod argv 2 default_options)))))
       (fst (extract_mesh (unitScale (unit (parseArgs stod argv 2 default_options)))
          (Explorer_Faces occt (argv ! 1)
             (deflection (parseArgs stod argv 2 default_options))
             (angle (parseArgs stod argv 2 default_options))))))"
proof -
  have 1: "positions (fst (triangle_step scale tr r nd st (i1, i2, i3))) =
     positions (fst st) @
       map (\<lambda>c. c * scale)
         [X (tr (nd i1)), Y (tr (nd i1)), Z (tr (nd i1)),
          X (tr (nd i2)), Y (tr (nd i2)), Z (tr (nd i2)),
          X (tr (nd i3)), Y (tr (nd i3)), Z (tr (nd i3))]"
    by (simp add: triangle_step_emit positions_emit_triangle coords_def scaled_def)
  have 2: "positions (fst (extract_mesh (unitScale u) faces)) =
     map (\<lambda>c. c * (if u = ''m'' then 1 else 1 / 1000)) (kernel_coords faces)"
    by (simp only: positions_extract_mesh unitScale_cases)
  from unitScale_cases 1 2 main_output show ?thesis by blast
qed

section \<open>Bounds\<close>

lemma updateBounds_within: "within_bounds (updateBounds b v) v"
  by (simp add: within_bounds_def updateBounds_def)

lemma updateBounds_mono: "within_bounds b u \<Longrightarrow> within_bounds (updateBounds b v) u"
  by (simp add: within_bounds_def updateBounds_def min_le_iff_disj le_max_iff_disj)

lemma foldl_updateBounds_mono:
  "within_bounds b u \<Longrightarrow> within_bounds (foldl updateBounds b vs) u"
  by (induction vs arbitrary: b) (simp_all add: updateBounds_mono)

lemma foldl_updateBounds_within:
  "v \<in> set vs \<Longrightarrow> within_bounds (foldl updateBounds b vs) v"
proof (induction vs arbitrary: b)
  case Nil
  then show ?case by simp
next
  case (Cons u vs)
  show ?case
  proof (cases "v = u")
    case True
    then show ?thesis
      by (simp add: foldl_updateBounds_mono updateBounds_within)
  next
    case False
    with Cons.prems have "v \<in> set vs" by simp
    then show ?thesis by (simp add: Cons.IH)
  qed
qed

lemma nth_concat_coords:
  "k < length vs \<Longrightarrow>
     concat (map coords vs) ! (3 * k) = x (vs ! k) \<and>
     concat (map coords vs) ! (3 * k + 1) = y (vs ! k) \<and>
     concat (map coords vs) ! (3 * k + 2) = z (vs ! k)"
proof (induction vs arbitrary: k)
  case Nil
  then show ?case by simp
next
  case (Cons v vs)
  show ?case
  proof (cases k)
    case 0
    then show ?thesis by (simp add: coords_def)
  next
    case (Suc j)
    with Cons.prems have j: "j < length vs" by simp
    have e: "3 * k = Suc (Suc (Suc (3 * j)))" using Suc by simp
    show ?thesis using Cons.IH [OF j] by (simp add: e Suc coords_def)
  qed
qed

text \<open>
  C6: at the end of the loops, every vertex of the positions buffer (the \<open>k\<close>-th one
  is at \<open>3k\<close>, \<open>3k + 1\<close>, \<open>3k + 2\<close>) lies between the minimum and the maximum of the
  bounds on each axis. The bounds are the fold of \<^const>\<open>updateBounds\<close> over the emitted
  vertices, one step for each vertex, and there is one index for each of them.
\<close>

theorem bounds_enclose:
  "(\<forall>k < length (indices (fst (extract_mesh s fs))).
      x (min_pt (snd (extract_mesh s fs))) \<le> positions (fst (extract_mesh s fs)) ! (3 * k) \<and>
      positions (fst (extract_mesh s fs)) ! (3 * k) \<le> x (max_pt (snd (extract_mesh s fs))) \<and>
      y (min_pt (snd (extract_mesh s fs))) \<le> positions (fst (extract_mesh s fs)) ! (3 * k + 1) \<and>
      positions (fst (extract_mesh s fs)) ! (3 * k + 1) \<le> y (max_pt (snd (extract_mesh s fs))) \<and>
      z (min_pt (snd (extract_mesh s fs))) \<le> positions (fst (extract_mesh s fs)) ! (3 * k + 2) \<and>
      positions (fst (extract_mesh s fs)) ! (3 * k + 2) \<le> z (max_pt (snd (extract_mesh s fs)))) \<and>
   (\<forall>v \<in> set (emitted_vertices s fs). within_bounds (snd (extract_mesh s fs)) v) \<and>
   snd (extract_mesh s fs) = foldl updateBounds initial_bounds (emitted_vertices s fs) \<and>
   positions (fst (extract_mesh s fs)) = concat (map coords (emitted_vertices s fs)) \<and>
   length (indices (fst (extract_mesh s fs))) = length (emitted_vertices s fs)"
proof -
  have "x (min_pt (snd (extract_mesh s fs))) \<le> positions (fst (extract_mesh s fs)) ! (3 * k) \<and>
      positions (fst (extract_mesh s fs)) ! (3 * k) \<le> x (max_pt (snd (extract_mesh s fs))) \<and>
      y (min_pt (snd (extract_mesh s fs))) \<le> positions (fst (extract_mesh s fs)) ! (3 * k + 1) \<and>
      positions (fst (extract_mesh s fs)) ! (3 * k + 1) \<le> y (max_pt (snd (extract_mesh s fs))) \<and>
      z (min_pt (snd (extract_mesh s fs))) \<le> positions (fst (extract_mesh s fs)) ! (3 * k + 2) \<and>
      positions (fst (extract_mesh s fs)) ! (3 * k + 2) \<le> z (max_pt (snd (extract_mesh s fs)))"
    if k: "k < length (indices (fst (extract_mesh s fs)))" for k
  proof -
    from k have k': "k < length (emitted_vertices s fs)"
      by (simp add: length_indices_extract_mesh)
    then have w: "within_bounds (snd (extract_mesh s fs)) (emitted_vertices s fs ! k)"
      by (simp add: bounds_extract_mesh foldl_updateBounds_within)
    show ?thesis
      using w nth_concat_coords [OF k']
      by (simp add: within_bounds_def positions_vertices)
  qed
  moreover have "\<forall>v \<in> set (emitted_vertices s fs). within_bounds (snd (extract_mesh s fs)) v"
    by (simp add: bounds_extract_mesh foldl_updateBounds_within)
  ultimately show ?thesis
    using bounds_extract_mesh [of s fs] positions_vertices [of s fs]
      length_indices_extract_mesh [of s fs]
    by blast
qed

lemma DBL_MAX_eq: "DBL_MAX = 2 ^ 1024 - 2 ^ 971"
  by (simp add: DBL_MAX_def)

lemma DBL_MAX_pos: "1 < DBL_MAX"
  by (simp add: DBL_MAX_def)

lemma example_triangles:
  "kernel_triangles [example_face ori] =
     [(ori = TopAbs_REVERSED, \<lparr>X = 0, Y = 0, Z = 0\<rparr>, \<lparr>X = 1, Y = 0, Z = 0\<rparr>, \<lparr>X = 0, Y = 1, Z = 0\<rparr>)]"
  by (simp add: kernel_triangles_def face_triangles_def example_face_def example_triangulation_def)

lemma example_vertices:
  "emitted_vertices s [example_face ori] =
     [\<lparr>x = 0, y = 0, z = 0\<rparr>, \<lparr>x = s, y = 0, z = 0\<rparr>, \<lparr>x = 0, y = s, z = 0\<rparr>]"
  by (simp add: emitted_vertices_def example_triangles triangle_vertices_def scaled_def)

lemma example_bounds:
  "snd (extract_mesh 1 [example_face ori]) =
     \<lparr>min_pt = \<lparr>x = 0, y = 0, z = 0\<rparr>, max_pt = \<lparr>x = 1, y = 1, z = 0\<rparr>\<rparr>"
  using DBL_MAX_pos
  by (simp add: bounds_extract_mesh example_vertices updateBounds_def initial_bounds_def)

theorem bounds_enclose_witness:
  "\<lparr>x = 0, y = 1, z = 0\<rparr> \<in> set (emitted_vertices 1 [example_face TopAbs_FORWARD]) \<and>
   within_bounds (snd (extract_mesh 1 [example_face TopAbs_FORWARD])) \<lparr>x = 0, y = 1, z = 0\<rparr> \<and>
   (2::nat) < length (indices (fst (extract_mesh 1 [example_face TopAbs_FORWARD]))) \<and>
   positions (fst (extract_mesh 1 [example_face TopAbs_FORWARD])) ! (3 * 2 + 1) = 1 \<and>
   y (min_pt (snd (extract_mesh 1 [example_face TopAbs_FORWARD]))) = 0 \<and>
   y (max_pt (snd (extract_mesh 1 [example_face TopAbs_FORWARD]))) = 1 \<and>
   y (min_pt (snd (extract_mesh 1 [example_face TopAbs_FORWARD])))
     \<le> positions (fst (extract_mesh 1 [example_face TopAbs_FORWARD])) ! (3 * 2 + 1) \<and>
   positions (fst (extract_mesh 1 [example_face TopAbs_FORWARD])) ! (3 * 2 + 1)
     \<le> y (max_pt (snd (extract_mesh 1 [example_face TopAbs_FORWARD])))"
proof -
  have len: "(2::nat) < length (indices (fst (extract_mesh 1 [example_face TopAbs_FORWARD])))"
    by (simp add: length_indices_extract_mesh example_vertices)
  have pos: "positions (fst (extract_mesh 1 [example_face TopAbs_FORWARD])) ! (3 * 2 + 1) = 1"
    by (simp add: positions_vertices example_vertices coords_def)
  from bounds_enclose [of 1 "[example_face TopAbs_FORWARD]"] len
  have "y (min_pt (snd (extract_mesh 1 [example_face TopAbs_FORWARD])))
     \<le> positions (fst (extract_mesh 1 [example_face TopAbs_FORWARD])) ! (3 * 2 + 1) \<and>
   positions (fst (extract_mesh 1 [example_face TopAbs_FORWARD])) ! (3 * 2 + 1)
     \<le> y (max_pt (snd (extract_mesh 1 [example_face TopAbs_FORWARD])))"
    by blast
  moreover have mem:
    "\<lparr>x = 0, y = 1, z = 0\<rparr> \<in> set (emitted_vertices 1 [example_face TopAbs_FORWARD])"
    by (simp add: example_vertices)
  moreover from bounds_enclose [of 1 "[example_face TopAbs_FORWARD]"] mem
  have "within_bounds (snd (extract_mesh 1 [example_face TopAbs_FORWARD])) \<lparr>x = 0, y = 1, z = 0\<rparr>"
    by blast
  ultimately show ?thesis using len pos by (simp add: example_bounds)
qed

section \<open>Command line\<close>

lemma drop_two: "i + 1 < length xs \<Longrightarrow> drop i xs = xs ! i # xs ! (i + 1) # drop (i + 2) xs"
  by (metis Cons_nth_drop_Suc Suc_eq_plus1 add_2_eq_Suc' add_lessD1)

lemma drop_last: "i < length xs \<Longrightarrow> \<not> i + 1 < length xs \<Longrightarrow> drop i xs = [xs ! i]"
  by (metis Cons_nth_drop_Suc Suc_eq_plus1 drop_all not_less)

lemma parseArgs_drop: "parseArgs stod argv i opts = parse_rest stod (drop i argv) opts"
proof (induction stod argv i opts rule: parseArgs.induct)
  case (1 stod argv i opts)
  show ?case
  proof (cases "i < length argv")
    case False
    then show ?thesis by (simp add: parseArgs.simps [of stod argv i opts])
  next
    case True
    show ?thesis
    proof (cases "i + 1 < length argv")
      case False
      with True show ?thesis
        using "1.IH"(4) [OF True]
        by (simp add: parseArgs.simps [of stod argv i opts]
              parseArgs.simps [of stod argv "Suc i" opts] drop_last)
    next
      case two: True
      note d = drop_two [OF two]
      have d1: "drop (Suc i) argv = argv ! (i + 1) # drop (i + 2) argv"
        using two by (metis Cons_nth_drop_Suc Suc_eq_plus1 add_2_eq_Suc')
      show ?thesis
        using "1.IH" True two
        by (simp add: parseArgs.simps [of stod argv i opts] d d1)
    qed
  qed
qed

lemma main_args:
  "main stod occt (a0 # f # rest) =
     (let opts = parse_rest stod rest default_options in
      if ReadFile occt f \<noteq> IFSelect_RetDone then failure ''Failed to read STEP file.''
      else if OneShape_IsNull occt f then failure ''STEP file has no shapes.''
      else if \<not> Mesher_IsDone occt f (deflection opts) (angle opts) then failure ''Meshing failed.''
      else
        let st = extract_mesh (unitScale (unit opts)) (Explorer_Faces occt f (deflection opts) (angle opts))
        in if positions (fst st) = [] then failure ''No mesh data extracted.''
           else \<lparr>exit_code = 0, cerr = [], cout = serialize (snd st) (fst st)\<rparr>)"
  by (simp add: main_def parseArgs_drop Let_def)

lemma main_same_options:
  "parse_rest stod rest default_options = parse_rest stod rest' default_options \<Longrightarrow>
     main stod occt (a0 # f # rest) = main stod occt (a0 # f # rest')"
  by (simp add: main_args)

lemma readDouble_throws: "stod v = None \<Longrightarrow> readDouble stod (Some v) fallback = fallback"
  by (simp add: readDouble_def)

text \<open>
  C9, as stated, fails on a text that starts with a number: \<^verbatim>\<open>std::stod\<close> reads
  \<open>1.5abc\<close> as \<open>1.5\<close> and does not throw, so \<open>--deflection 1.5abc\<close> and
  \<open>--angle 1.5abc\<close> set the option to \<open>1.5\<close> and nothing falls back to the
  default.
\<close>

theorem numeric_prefix_is_read:
  "deflection (parseArgs example_stod
      [''occt_step_export'', ''part.step'', ''--deflection'', ''1.5abc''] 2 default_options) = 1.5 \<and>
   deflection (parseArgs example_stod
      [''occt_step_export'', ''part.step'', ''--deflection'', ''1.5abc''] 2 default_options) \<noteq> 0.2 \<and>
   angle (parseArgs example_stod
      [''occt_step_export'', ''part.step'', ''--angle'', ''1.5abc''] 2 default_options) = 1.5 \<and>
   angle (parseArgs example_stod
      [''occt_step_export'', ''part.step'', ''--angle'', ''1.5abc''] 2 default_options) \<noteq> 0.5"
  by (simp add: parseArgs_drop readDouble_def example_stod_def)

text \<open>
  C9, amended: when \<open>stod\<close> throws on the text after \<open>--deflection\<close> or \<open>--angle\<close>
  (no number starts the text, or the number is out of range), \<^const>\<open>readDouble\<close>
  returns the fallback, the loop goes on behind the pair with the options unchanged
  (the value assigned before, or the default \<open>0.2\<close> and \<open>0.5\<close>), and the whole
  program behaves as it does without the pair: no message, no other exit code. When
  \<open>stod\<close> returns a number for the text, as it does for a number followed by other
  characters, that number is the value of the option.
\<close>

theorem malformed_number_falls_back:
  "(stod v = None \<longrightarrow>
      readDouble stod (Some v) fallback = fallback \<and>
      parseArgs stod (pre @ ''--deflection'' # v # post) (length pre) opts =
        parseArgs stod (pre @ ''--deflection'' # v # post) (length pre + 2) opts \<and>
      parseArgs stod (pre @ ''--angle'' # v # post) (length pre) opts =
        parseArgs stod (pre @ ''--angle'' # v # post) (length pre + 2) opts \<and>
      deflection (parseArgs stod [a0, f, ''--deflection'', v] 2 default_options) = 0.2 \<and>
      angle (parseArgs stod [a0, f, ''--angle'', v] 2 default_options) = 0.5 \<and>
      main stod occt (a0 # f # ''--deflection'' # v # rest) = main stod occt (a0 # f # rest) \<and>
      main stod occt (a0 # f # ''--angle'' # v # rest) = main stod occt (a0 # f # rest)) \<and>
   (stod w = Some d \<longrightarrow>
      readDouble stod (Some w) fallback = d \<and>
      deflection (parseArgs stod (pre @ ''--deflection'' # w # post) (length pre) opts) =
        deflection (parseArgs stod (pre @ ''--deflection'' # w # post) (length pre + 2)
          (opts\<lparr>deflection := d\<rparr>)) \<and>
      deflection (parseArgs stod [a0, f, ''--deflection'', w] 2 default_options) = d \<and>
      angle (parseArgs stod [a0, f, ''--angle'', w] 2 default_options) = d)"
proof -
  have A: "readDouble stod (Some v) fallback = fallback \<and>
      parseArgs stod (pre @ ''--deflection'' # v # post) (length pre) opts =
        parseArgs stod (pre @ ''--deflection'' # v # post) (length pre + 2) opts \<and>
      parseArgs stod (pre @ ''--angle'' # v # post) (length pre) opts =
        parseArgs stod (pre @ ''--angle'' # v # post) (length pre + 2) opts \<and>
      deflection (parseArgs stod [a0, f, ''--deflection'', v] 2 default_options) = 0.2 \<and>
      angle (parseArgs stod [a0, f, ''--angle'', v] 2 default_options) = 0.5 \<and>
      main stod occt (a0 # f # ''--deflection'' # v # rest) = main stod occt (a0 # f # rest) \<and>
      main stod occt (a0 # f # ''--angle'' # v # rest) = main stod occt (a0 # f # rest)"
    if throws: "stod v = None"
  proof -
    have r: "readDouble stod (Some v) fb = fb" for fb
      using throws by (rule readDouble_throws)
    have d: "parse_rest stod (''--deflection'' # v # xs) o' = parse_rest stod xs o'" for xs o'
      by (simp add: r)
    have a: "parse_rest stod (''--angle'' # v # xs) o' = parse_rest stod xs o'" for xs o'
      by (simp add: r)
    have 1: "parseArgs stod (pre @ ''--deflection'' # v # post) (length pre) opts =
         parseArgs stod (pre @ ''--deflection'' # v # post) (length pre + 2) opts"
      by (simp add: parseArgs_drop r)
    have 2: "parseArgs stod (pre @ ''--angle'' # v # post) (length pre) opts =
         parseArgs stod (pre @ ''--angle'' # v # post) (length pre + 2) opts"
      by (simp add: parseArgs_drop r)
    have 3: "deflection (parseArgs stod [a0, f, ''--deflection'', v] 2 default_options) = 0.2"
      by (simp add: parseArgs_drop r default_options_def)
    have 4: "angle (parseArgs stod [a0, f, ''--angle'', v] 2 default_options) = 0.5"
      by (simp add: parseArgs_drop r default_options_def)
    have 5: "main stod occt (a0 # f # ''--deflection'' # v # rest) = main stod occt (a0 # f # rest)"
      by (rule main_same_options) (rule d)
    have 6: "main stod occt (a0 # f # ''--angle'' # v # rest) = main stod occt (a0 # f # rest)"
      by (rule main_same_options) (rule a)
    from r 1 2 3 4 5 6 show ?thesis by blast
  qed
  have B: "readDouble stod (Some w) fallback = d \<and>
      deflection (parseArgs stod (pre @ ''--deflection'' # w # post) (length pre) opts) =
        deflection (parseArgs stod (pre @ ''--deflection'' # w # post) (length pre + 2)
          (opts\<lparr>deflection := d\<rparr>)) \<and>
      deflection (parseArgs stod [a0, f, ''--deflection'', w] 2 default_options) = d \<and>
      angle (parseArgs stod [a0, f, ''--angle'', w] 2 default_options) = d"
    if "stod w = Some d"
    using that by (simp add: parseArgs_drop readDouble_def)
  from A B show ?thesis by blast
qed

theorem malformed_number_falls_back_witness:
  "example_stod ''abc'' = None \<and>
   deflection (parseArgs example_stod
      [''occt_step_export'', ''part.step'', ''--deflection'', ''abc''] 2 default_options) = 0.2 \<and>
   angle (parseArgs example_stod
      [''occt_step_export'', ''part.step'', ''--angle'', ''abc''] 2 default_options) = 0.5 \<and>
   main example_stod (example_kernel [example_face TopAbs_FORWARD])
      [''occt_step_export'', ''part.step'', ''--deflection'', ''abc''] =
   main example_stod (example_kernel [example_face TopAbs_FORWARD])
      [''occt_step_export'', ''part.step''] \<and>
   example_stod ''0x10'' = Some 16 \<and>
   deflection (parseArgs example_stod
      [''occt_step_export'', ''part.step'', ''--deflection'', ''0x10''] 2 default_options) = 16"
proof -
  have h: "example_stod ''abc'' = None" and g: "example_stod ''0x10'' = Some 16"
    by (simp_all add: example_stod_def)
  show ?thesis
    using h g malformed_number_falls_back [where stod = example_stod and v = "''abc''"
        and ?a0.0 = "''occt_step_export''" and f = "''part.step''"
        and occt = "example_kernel [example_face TopAbs_FORWARD]" and rest = "[]"
        and w = "''0x10''" and d = 16]
    by simp
qed

lemma valid_number_is_read:
  "deflection (parseArgs example_stod
      [''occt_step_export'', ''part.step'', ''--deflection'', ''1.5''] 2 default_options) = 1.5"
  by (simp add: parseArgs_drop readDouble_def example_stod_def)

subsection \<open>Arguments that are not options\<close>

lemma examined_visited: "examined argv i = map (\<lambda>k. k + i) (visited (drop i argv))"
proof (induction argv i rule: examined.induct)
  case (1 argv i)
  show ?case
  proof (cases "i < length argv")
    case False
    then show ?thesis by (simp add: examined.simps [of argv i])
  next
    case True
    show ?thesis
    proof (cases "i + 1 < length argv")
      case False
      with True have d: "drop i argv = [argv ! i]" by (rule drop_last)
      from False True have "examined argv (i + 1) = []"
        by (simp add: examined.simps [of argv "Suc i"])
      with True False show ?thesis
        by (simp add: examined.simps [of argv i] d)
    next
      case two: True
      note d = drop_two [OF two]
      have d1: "drop (Suc i) argv = argv ! (i + 1) # drop (i + 2) argv"
        using two by (metis Cons_nth_drop_Suc Suc_eq_plus1 add_2_eq_Suc')
      show ?thesis
        using "1.IH" True two
        by (simp add: examined.simps [of argv i] d d1 comp_def)
    qed
  qed
qed

lemma parse_rest_skip:
  "a \<notin> option_flags \<Longrightarrow> parse_rest stod (a # xs) opts = parse_rest stod xs opts"
  by (cases xs) (simp_all add: option_flags_def)

lemma visited_less: "k \<in> set (visited xs) \<Longrightarrow> k < length xs"
  by (induction xs arbitrary: k rule: visited.induct) (auto split: if_splits)

lemma parse_rest_remove:
  "k \<in> set (visited xs) \<Longrightarrow> xs ! k \<notin> option_flags \<or> k + 1 = length xs \<Longrightarrow>
     parse_rest stod (remove_arg k xs) opts = parse_rest stod xs opts"
proof (induction xs arbitrary: k opts rule: visited.induct)
  case 1
  then show ?case by simp
next
  case (2 a)
  then show ?case by (simp add: remove_arg_def)
next
  case (3 a v rest)
  show ?case
  proof (cases "a \<in> option_flags")
    case True
    with "3.prems" obtain k' where k: "k = k' + 2" "k' \<in> set (visited rest)"
      by auto
    with "3.prems"(2) have c: "rest ! k' \<notin> option_flags \<or> k' + 1 = length rest"
      by simp
    have r: "remove_arg k (a # v # rest) = a # v # remove_arg k' rest"
      by (simp add: remove_arg_def k)
    show ?thesis
      using True "3.IH"(1) [OF True k(2) c]
      by (auto simp: r option_flags_def)
  next
    case False
    show ?thesis
    proof (cases k)
      case 0
      then show ?thesis
        using False by (simp add: remove_arg_def parse_rest_skip del: parse_rest.simps)
    next
      case (Suc k')
      with "3.prems"(1) False have k': "k' \<in> set (visited (v # rest))"
        by auto
      from "3.prems"(2) Suc have c: "(v # rest) ! k' \<notin> option_flags \<or> k' + 1 = length (v # rest)"
        by simp
      have r: "remove_arg k (a # v # rest) = a # remove_arg k' (v # rest)"
        by (simp add: remove_arg_def Suc)
      have "parse_rest stod (a # remove_arg k' (v # rest)) opts =
          parse_rest stod (remove_arg k' (v # rest)) opts"
        using False by (rule parse_rest_skip)
      also have "\<dots> = parse_rest stod (v # rest) opts"
        using "3.IH"(2) [OF False k' c] .
      also have "\<dots> = parse_rest stod (a # v # rest) opts"
        using False by (simp add: parse_rest_skip del: parse_rest.simps)
      finally show ?thesis by (simp only: r)
    qed
  qed
qed

lemma visited_consumed:
  "k \<in> set (visited xs) \<Longrightarrow> xs ! k \<in> option_flags \<Longrightarrow> k + 1 < length xs \<Longrightarrow>
     k + 1 \<notin> set (visited xs)"
proof (induction xs arbitrary: k rule: visited.induct)
  case 1
  then show ?case by simp
next
  case (2 a)
  then show ?case by simp
next
  case (3 a v rest)
  show ?case
  proof (cases "a \<in> option_flags")
    case True
    show ?thesis
    proof (cases "k = 0")
      case k0: True
      then show ?thesis using True by auto
    next
      case False
      with "3.prems"(1) True obtain k' where k: "k = k' + 2" "k' \<in> set (visited rest)"
        by auto
      from "3.prems" k have "k' + 1 \<notin> set (visited rest)"
        by (intro "3.IH"(1) [OF True]) simp_all
      then show ?thesis using True k by auto
    qed
  next
    case False
    from "3.prems"(2) False have "k \<noteq> 0" by (cases k) auto
    with "3.prems"(1) False obtain k' where k: "k = Suc k'" "k' \<in> set (visited (v # rest))"
      by auto
    from "3.prems" k have "k' + 1 \<notin> set (visited (v # rest))"
      by (intro "3.IH"(2) [OF False]) simp_all
    then show ?thesis using False k by auto
  qed
qed

lemma examined_consumed:
  assumes "k \<in> set (examined argv 2)" "argv ! k \<in> option_flags" "k + 1 < length argv"
  shows "k + 1 \<notin> set (examined argv 2)"
proof -
  from assms(1) obtain k' where k: "k = k' + 2" "k' \<in> set (visited (drop 2 argv))"
    by (auto simp: examined_visited)
  have "k' + 1 \<notin> set (visited (drop 2 argv))"
    using assms(2,3) k by (intro visited_consumed) (simp_all add: add.commute)
  then show ?thesis by (auto simp: examined_visited k)
qed

lemma serialize_max_x: "serialize b m ! 8 = Dbl (x (max_pt b))"
  by (simp add: serialize_def)

lemma example_bounds_scale:
  "0 \<le> s \<Longrightarrow> s \<le> 1 \<Longrightarrow> x (max_pt (snd (extract_mesh s [example_face ori]))) = s"
  using DBL_MAX_pos
  by (simp add: bounds_extract_mesh example_vertices updateBounds_def initial_bounds_def)

lemma example_positions: "positions (fst (extract_mesh s [example_face ori])) \<noteq> []"
  by (simp add: positions_Nil example_triangles)

lemma example_cout:
  "cout (main stod (example_kernel [example_face ori]) (a0 # f # rest)) ! 8 =
     Dbl (unitScale (unit (parse_rest stod rest default_options)))"
proof -
  have s: "0 \<le> unitScale u" "unitScale u \<le> 1" for u
    by (simp_all add: unitScale_def)
  show ?thesis
    by (simp add: main_args example_kernel_def Let_def example_positions serialize_max_x
          example_bounds_scale s)
qed

text \<open>
  C10, as stated, fails for an argument that directly follows a flag: the loop takes it
  as the value of that flag, whatever it is. Behind \<open>--unit m --unit\<close> a final
  \<open>--deflection\<close>, a recognised flag with no value of its own, becomes the unit, and
  so does the unrecognised \<open>--verbose\<close>; the unit is no longer \<open>m\<close>, and the
  program writes other coordinates than without that argument.
\<close>

theorem argument_behind_flag_is_its_value:
  "unit (parseArgs example_stod
      [''occt_step_export'', ''part.step'', ''--unit'', ''m'', ''--unit'', ''--deflection''] 2
      default_options) = ''--deflection'' \<and>
   unit (parseArgs example_stod
      [''occt_step_export'', ''part.step'', ''--unit'', ''m'', ''--unit'', ''--verbose''] 2
      default_options) = ''--verbose'' \<and>
   unit (parseArgs example_stod
      [''occt_step_export'', ''part.step'', ''--unit'', ''m'', ''--unit''] 2
      default_options) = ''m'' \<and>
   cout (main example_stod (example_kernel [example_face TopAbs_FORWARD])
      [''occt_step_export'', ''part.step'', ''--unit'', ''m'', ''--unit'', ''--deflection'']) \<noteq>
   cout (main example_stod (example_kernel [example_face TopAbs_FORWARD])
      [''occt_step_export'', ''part.step'', ''--unit'', ''m'', ''--unit'']) \<and>
   cout (main example_stod (example_kernel [example_face TopAbs_FORWARD])
      [''occt_step_export'', ''part.step'', ''--unit'', ''m'', ''--unit'', ''--verbose'']) \<noteq>
   cout (main example_stod (example_kernel [example_face TopAbs_FORWARD])
      [''occt_step_export'', ''part.step'', ''--unit'', ''m'', ''--unit''])"
proof -
  have "cout (main example_stod (example_kernel [example_face TopAbs_FORWARD])
      [''occt_step_export'', ''part.step'', ''--unit'', ''m'', ''--unit'', ''--deflection'']) ! 8 \<noteq>
   cout (main example_stod (example_kernel [example_face TopAbs_FORWARD])
      [''occt_step_export'', ''part.step'', ''--unit'', ''m'', ''--unit'']) ! 8"
    by (simp add: example_cout unitScale_def)
  then have 1: "cout (main example_stod (example_kernel [example_face TopAbs_FORWARD])
      [''occt_step_export'', ''part.step'', ''--unit'', ''m'', ''--unit'', ''--deflection'']) \<noteq>
   cout (main example_stod (example_kernel [example_face TopAbs_FORWARD])
      [''occt_step_export'', ''part.step'', ''--unit'', ''m'', ''--unit''])"
    by (rule contrapos_nn) simp
  have "cout (main example_stod (example_kernel [example_face TopAbs_FORWARD])
      [''occt_step_export'', ''part.step'', ''--unit'', ''m'', ''--unit'', ''--verbose'']) ! 8 \<noteq>
   cout (main example_stod (example_kernel [example_face TopAbs_FORWARD])
      [''occt_step_export'', ''part.step'', ''--unit'', ''m'', ''--unit'']) ! 8"
    by (simp add: example_cout unitScale_def)
  then have 2: "cout (main example_stod (example_kernel [example_face TopAbs_FORWARD])
      [''occt_step_export'', ''part.step'', ''--unit'', ''m'', ''--unit'', ''--verbose'']) \<noteq>
   cout (main example_stod (example_kernel [example_face TopAbs_FORWARD])
      [''occt_step_export'', ''part.step'', ''--unit'', ''m'', ''--unit''])"
    by (rule contrapos_nn) simp
  from 1 2 show ?thesis by (simp add: parseArgs_drop)
qed

text \<open>
  C10, amended: an argument the loop examines (one that is not taken as the value of
  the flag before it) and that is an option flag in the last place, or none of the
  three flags, changes nothing: the options and the whole program are as they are for
  the command line without that argument. The argument behind an examined flag is not
  examined: it is the value of the flag.
\<close>

theorem stray_arguments_ignored:
  assumes "k \<in> set (examined argv 2)"
    and "argv ! k \<notin> option_flags \<or> k + 1 = length argv"
  shows "parseArgs stod argv 2 opts = parseArgs stod (remove_arg k argv) 2 opts \<and>
         main stod occt argv = main stod occt (remove_arg k argv) \<and>
         (j \<in> set (examined argv 2) \<and> argv ! j \<in> option_flags \<and> j + 1 < length argv \<longrightarrow>
            j + 1 \<notin> set (examined argv 2))"
proof -
  from assms(1) obtain k' where k: "k = k' + 2" "k' \<in> set (visited (drop 2 argv))"
    by (auto simp: examined_visited)
  from k(2) have len: "k' < length (drop 2 argv)" by (rule visited_less)
  then have l3: "k < length argv" "2 \<le> length argv" by (simp_all add: k)
  have c: "drop 2 argv ! k' \<notin> option_flags \<or> k' + 1 = length (drop 2 argv)"
    using assms(2) l3 by (auto simp: k)
  have d: "drop 2 (remove_arg k argv) = remove_arg k' (drop 2 argv)"
    using l3 by (simp add: remove_arg_def k drop_take min_def add.commute)
  have p: "parseArgs stod argv 2 opts' = parseArgs stod (remove_arg k argv) 2 opts'" for opts'
    by (simp add: parseArgs_drop d parse_rest_remove [OF k(2) c])
  have n1: "remove_arg k argv ! Suc 0 = argv ! Suc 0"
    using l3 by (simp add: remove_arg_def k nth_append)
  have l: "\<not> length (remove_arg k argv) < 2" "\<not> length argv < 2"
    using l3 by (simp_all add: remove_arg_def k)
  have "main stod occt argv = main stod occt (remove_arg k argv)"
    by (simp add: main_def l n1 p [symmetric])
  with p examined_consumed [of j argv] show ?thesis by blast
qed

lemma examined_example:
  "examined [''occt_step_export'', ''part.step'', ''--verbose'', ''--unit'', ''m'', ''--angle''] 2
     = [2, 3, 5]"
  by (simp add: examined_visited option_flags_def)

theorem stray_arguments_ignored_witness:
  "(2::nat) \<in> set (examined
      [''occt_step_export'', ''part.step'', ''--verbose'', ''--unit'', ''m'', ''--angle''] 2) \<and>
   ''--verbose'' \<notin> option_flags \<and>
   main example_stod (example_kernel [example_face TopAbs_FORWARD])
      [''occt_step_export'', ''part.step'', ''--verbose'', ''--unit'', ''m'', ''--angle''] =
   main example_stod (example_kernel [example_face TopAbs_FORWARD])
      [''occt_step_export'', ''part.step'', ''--unit'', ''m'', ''--angle''] \<and>
   (5::nat) \<in> set (examined
      [''occt_step_export'', ''part.step'', ''--verbose'', ''--unit'', ''m'', ''--angle''] 2) \<and>
   main example_stod (example_kernel [example_face TopAbs_FORWARD])
      [''occt_step_export'', ''part.step'', ''--verbose'', ''--unit'', ''m'', ''--angle''] =
   main example_stod (example_kernel [example_face TopAbs_FORWARD])
      [''occt_step_export'', ''part.step'', ''--verbose'', ''--unit'', ''m''] \<and>
   (3::nat) \<in> set (examined
      [''occt_step_export'', ''part.step'', ''--verbose'', ''--unit'', ''m'', ''--angle''] 2) \<and>
   (4::nat) \<notin> set (examined
      [''occt_step_export'', ''part.step'', ''--verbose'', ''--unit'', ''m'', ''--angle''] 2)"
proof -
  let ?argv = "[''occt_step_export'', ''part.step'', ''--verbose'', ''--unit'', ''m'', ''--angle'']"
  have e2: "(2::nat) \<in> set (examined ?argv 2)" and e5: "(5::nat) \<in> set (examined ?argv 2)"
    and e3: "(3::nat) \<in> set (examined ?argv 2)"
    by (simp_all add: examined_example)
  have v: "''--verbose'' \<notin> option_flags"
    by (simp add: option_flags_def)
  have u: "?argv ! 3 \<in> option_flags"
    by (simp add: option_flags_def)
  have c2: "?argv ! 2 \<notin> option_flags \<or> 2 + 1 = length ?argv"
    using v by simp
  have c5: "?argv ! 5 \<notin> option_flags \<or> 5 + 1 = length ?argv"
    by simp
  show ?thesis
    using e2 e3 e5 v u
      stray_arguments_ignored [OF e2 c2, of example_stod default_options
        "example_kernel [example_face TopAbs_FORWARD]" 3]
      stray_arguments_ignored [OF e5 c5, of example_stod default_options
        "example_kernel [example_face TopAbs_FORWARD]" 3]
    by (simp add: remove_arg_def)
qed

section \<open>No mesh data\<close>

text \<open>
  C7: when the file is read, the shape is not null and the mesher is done, but the
  positions are empty after the loops (exactly when the faces have no triangle), the
  program writes \<open>No mesh data extracted.\<close> and a line feed to standard error,
  returns 1 and writes nothing to standard output.
\<close>

theorem empty_mesh_failure:
  assumes "2 \<le> length argv"
    and "opts = parseArgs stod argv 2 default_options"
    and "ReadFile occt (argv ! 1) = IFSelect_RetDone"
    and "\<not> OneShape_IsNull occt (argv ! 1)"
    and "Mesher_IsDone occt (argv ! 1) (deflection opts) (angle opts)"
    and "positions (fst (extract_mesh (unitScale (unit opts))
            (Explorer_Faces occt (argv ! 1) (deflection opts) (angle opts)))) = []"
  shows "main stod occt argv =
           \<lparr>exit_code = 1, cerr = ''No mesh data extracted.'' @ [CHR 0x0A], cout = []\<rparr> \<and>
         kernel_triangles (Explorer_Faces occt (argv ! 1) (deflection opts) (angle opts)) = [] \<and>
         (positions (fst (extract_mesh s fs)) = [] \<longleftrightarrow> kernel_triangles fs = [])"
proof -
  have "main stod occt argv = failure ''No mesh data extracted.''"
    using assms by (simp add: main_def Let_def)
  then show ?thesis
    using assms(6) by (simp add: failure_def positions_Nil)
qed

lemma untessellated_triangles: "kernel_triangles [untessellated_face] = []"
  by (simp add: kernel_triangles_def face_triangles_def untessellated_face_def)

theorem empty_mesh_failure_witness:
  "main example_stod (example_kernel [untessellated_face]) [''occt_step_export'', ''part.step''] =
     \<lparr>exit_code = 1, cerr = ''No mesh data extracted.'' @ [CHR 0x0A], cout = []\<rparr>"
proof -
  have o: "parseArgs example_stod [''occt_step_export'', ''part.step''] 2 default_options
      = default_options"
    by (simp add: parseArgs_drop)
  have p: "positions (fst (extract_mesh s [untessellated_face])) = []" for s
    by (simp add: positions_Nil untessellated_triangles)
  show ?thesis
    using empty_mesh_failure [of "[''occt_step_export'', ''part.step'']" default_options
        example_stod "example_kernel [untessellated_face]"]
    by (simp add: o p example_kernel_def)
qed

section \<open>The initial bounds\<close>

text \<open>
  C8, as stated, fails on the sentinel: the bounds start at
  \<^verbatim>\<open>std::numeric_limits<double>::max()\<close> and \<^verbatim>\<open>lowest()\<close>, which are finite numbers
  (below \<open>2 ^ 1024\<close> in absolute value), not at plus and minus infinity.
\<close>

theorem sentinel_is_finite:
  "x (min_pt initial_bounds) < 2 ^ 1024 \<and> y (min_pt initial_bounds) < 2 ^ 1024 \<and>
   z (min_pt initial_bounds) < 2 ^ 1024 \<and>
   - (2 ^ 1024) < x (max_pt initial_bounds) \<and> - (2 ^ 1024) < y (max_pt initial_bounds) \<and>
   - (2 ^ 1024) < z (max_pt initial_bounds)"
  by (simp add: initial_bounds_def DBL_MAX_eq)

text \<open>
  C8, amended: the bounds start at \<open>(DBL_MAX, DBL_MAX, DBL_MAX)\<close> for the minimum and
  \<open>(-DBL_MAX, -DBL_MAX, -DBL_MAX)\<close> for the maximum, where \<open>DBL_MAX = 2 ^ 1024 - 2 ^ 971\<close>
  is the largest finite double. They are the fold of \<^const>\<open>updateBounds\<close> over the
  emitted vertices from that start; with no vertex they stay at the start, and then the
  program writes nothing to standard output.
\<close>

theorem bounds_sentinel:
  "initial_bounds =
     \<lparr>min_pt = \<lparr>x = DBL_MAX, y = DBL_MAX, z = DBL_MAX\<rparr>,
      max_pt = \<lparr>x = - DBL_MAX, y = - DBL_MAX, z = - DBL_MAX\<rparr>\<rparr> \<and>
   DBL_MAX = 2 ^ 1024 - 2 ^ 971 \<and>
   extract_mesh scale [] = (empty_mesh, initial_bounds) \<and>
   snd (extract_mesh scale faces) = foldl updateBounds initial_bounds (emitted_vertices scale faces) \<and>
   (emitted_vertices scale faces = [] \<longrightarrow> snd (extract_mesh scale faces) = initial_bounds) \<and>
   (emitted_vertices (unitScale (unit (parseArgs stod argv 2 default_options)))
      (Explorer_Faces occt (argv ! 1)
         (deflection (parseArgs stod argv 2 default_options))
         (angle (parseArgs stod argv 2 default_options))) = [] \<longrightarrow>
    cout (main stod occt argv) = [])"
proof -
  have 1: "extract_mesh scale [] = (empty_mesh, initial_bounds)"
    by (simp add: extract_mesh_def)
  have 2: "snd (extract_mesh scale faces) = initial_bounds" if "emitted_vertices scale faces = []"
    by (simp add: bounds_extract_mesh that)
  have 3: "cout (main stod occt argv) = []"
    if "emitted_vertices (unitScale (unit (parseArgs stod argv 2 default_options)))
      (Explorer_Faces occt (argv ! 1)
         (deflection (parseArgs stod argv 2 default_options))
         (angle (parseArgs stod argv 2 default_options))) = []"
    using that by (simp add: main_def Let_def failure_def positions_vertices)
  from 1 2 3 DBL_MAX_eq bounds_extract_mesh [of scale faces] show ?thesis
    by (simp add: initial_bounds_def)
qed

theorem bounds_sentinel_witness:
  "emitted_vertices 1 [untessellated_face] = [] \<and>
   snd (extract_mesh 1 [untessellated_face]) = initial_bounds \<and>
   cout (main example_stod (example_kernel [untessellated_face])
      [''occt_step_export'', ''part.step'']) = []"
proof -
  have e: "emitted_vertices s [untessellated_face] = []" for s
    by (simp add: emitted_vertices_Nil untessellated_triangles)
  show ?thesis
    using bounds_sentinel [of 1 "[untessellated_face]" example_stod
        "[''occt_step_export'', ''part.step'']" "example_kernel [untessellated_face]"]
    by (simp add: e example_kernel_def)
qed

section \<open>A run on one triangle\<close>

text \<open>
  The program on the small kernel with one reversed face and the unit \<open>m\<close>: nine
  positions, the normal \<open>(0, 0, -1)\<close> three times, the indices 0, 1, 2, no edges.
\<close>

lemma example_normal:
  "face_normal r \<lparr>x = 0, y = 0, z = 0\<rparr> \<lparr>x = 1, y = 0, z = 0\<rparr> \<lparr>x = 0, y = 1, z = 0\<rparr> =
     \<lparr>x = 0, y = 0, z = (if r then - 1 else 1)\<rparr>"
  by (simp add: face_normal_def normalize_vec_def computed_length_def cross_def subtract_def
        DBL_1e_12_def)

lemma example_mesh:
  "fst (extract_mesh 1 [example_face TopAbs_REVERSED]) =
     \<lparr>positions = [0, 0, 0, 1, 0, 0, 0, 1, 0],
      normals = [0, 0, - 1, 0, 0, - 1, 0, 0, - 1],
      indices = [0, 1, 2]\<rparr>"
  by (simp add: extract_mesh_flat example_triangles emit_scaled_tuple scaled_def
        emit_triangle_def example_normal appendVertex_def empty_mesh_def)

lemma single_triangle_run:
  \<open>main example_stod (example_kernel [example_face TopAbs_REVERSED])
      [''occt_step_export'', ''part.step'', ''--unit'', ''m''] =
   \<lparr>exit_code = 0, cerr = [],
    cout =
      [Str ''{'', Str ''"bounds":{"min":['', Dbl 0, Str '','', Dbl 0, Str '','', Dbl 0,
       Str ''],"max":['', Dbl 1, Str '','', Dbl 1, Str '','', Dbl 0,
       Str '']},'', Str ''"meshes":[{'', Str ''"id":"mesh-0",'', Str ''"positions":['',
       Dbl 0, Str '','', Dbl 0, Str '','', Dbl 0, Str '','',
       Dbl 1, Str '','', Dbl 0, Str '','', Dbl 0, Str '','',
       Dbl 0, Str '','', Dbl 1, Str '','', Dbl 0,
       Str ''],'', Str ''"normals":['',
       Dbl 0, Str '','', Dbl 0, Str '','', Dbl (- 1), Str '','',
       Dbl 0, Str '','', Dbl 0, Str '','', Dbl (- 1), Str '','',
       Dbl 0, Str '','', Dbl 0, Str '','', Dbl (- 1),
       Str ''],'', Str ''"indices":['', UInt 0, Str '','', UInt 1, Str '','', UInt 2,
       Str '']'', Str ''}],'', Str ''"edges":[]'', Str ''}'']\<rparr>\<close>
  by (simp add: main_args example_kernel_def unitScale_def example_mesh example_bounds
        serialize_def)

end
